theory Spec2Isabelle
  imports Complex_Main
begin

section \<open>JavaScript numbers\<close>

text \<open>
  Every quantity of \<^verbatim>\<open>index.js\<close> is a JavaScript Number. A Number is modelled as an
  exact real, or one of the three special values that the arithmetic of the language
  produces (a division by zero, an \<^verbatim>\<open>asin\<close> outside its domain). The operations follow
  the Number operations of the language definition. Two things are left out: the rounding
  of finite results to the nearest double, and the sign of zero (zero is the positive one).
\<close>

datatype number = Fin real | PInf | NInf | NaN

fun nneg :: "number \<Rightarrow> number" where
  "nneg (Fin a) = Fin (- a)"
| "nneg PInf = NInf"
| "nneg NInf = PInf"
| "nneg NaN = NaN"

fun nadd :: "number \<Rightarrow> number \<Rightarrow> number" where
  "nadd NaN _ = NaN"
| "nadd _ NaN = NaN"
| "nadd (Fin a) (Fin b) = Fin (a + b)"
| "nadd PInf NInf = NaN"
| "nadd NInf PInf = NaN"
| "nadd PInf _ = PInf"
| "nadd NInf _ = NInf"
| "nadd _ PInf = PInf"
| "nadd _ NInf = NInf"

definition nsub :: "number \<Rightarrow> number \<Rightarrow> number" where
  "nsub a b = nadd a (nneg b)"

fun nsign :: "number \<Rightarrow> real" where
  "nsign (Fin a) = sgn a"
| "nsign PInf = 1"
| "nsign NInf = - 1"
| "nsign NaN = 0"

fun nmul :: "number \<Rightarrow> number \<Rightarrow> number" where
  "nmul NaN _ = NaN"
| "nmul _ NaN = NaN"
| "nmul (Fin a) (Fin b) = Fin (a * b)"
| "nmul a b =
     (if nsign a * nsign b = 0 then NaN
      else if 0 < nsign a * nsign b then PInf else NInf)"

fun ndiv :: "number \<Rightarrow> number \<Rightarrow> number" where
  "ndiv NaN _ = NaN"
| "ndiv _ NaN = NaN"
| "ndiv (Fin a) (Fin b) =
     (if b \<noteq> 0 then Fin (a / b)
      else if a = 0 then NaN
      else if 0 < a then PInf else NInf)"
| "ndiv (Fin a) _ = Fin 0"
| "ndiv PInf (Fin b) = (if 0 \<le> b then PInf else NInf)"
| "ndiv NInf (Fin b) = (if 0 \<le> b then NInf else PInf)"
| "ndiv _ _ = NaN"

text \<open>The remainder \<^verbatim>\<open>n % d\<close> takes the sign of the dividend: the quotient is truncated.\<close>

definition ntrunc :: "real \<Rightarrow> int" where
  "ntrunc r = (if 0 \<le> r then \<lfloor>r\<rfloor> else \<lceil>r\<rceil>)"

fun nmod :: "number \<Rightarrow> number \<Rightarrow> number" where
  "nmod NaN _ = NaN"
| "nmod _ NaN = NaN"
| "nmod PInf _ = NaN"
| "nmod NInf _ = NaN"
| "nmod (Fin a) (Fin b) =
     (if b = 0 then NaN else Fin (a - b * of_int (ntrunc (a / b))))"
| "nmod (Fin a) _ = Fin a"

text \<open>Comparisons: every comparison with \<^verbatim>\<open>NaN\<close> is false.\<close>

fun nlt :: "number \<Rightarrow> number \<Rightarrow> bool" where
  "nlt NaN _ = False"
| "nlt _ NaN = False"
| "nlt (Fin a) (Fin b) = (a < b)"
| "nlt _ NInf = False"
| "nlt PInf _ = False"
| "nlt NInf _ = True"
| "nlt _ PInf = True"

definition neq :: "number \<Rightarrow> number \<Rightarrow> bool" where
  "neq a b = (a = b \<and> a \<noteq> NaN)"

definition nle :: "number \<Rightarrow> number \<Rightarrow> bool" where
  "nle a b = (nlt a b \<or> neq a b)"

definition ngt :: "number \<Rightarrow> number \<Rightarrow> bool" where
  "ngt a b = nlt b a"

text \<open>The condition of \<^verbatim>\<open>c ? a : b\<close> on a Number: zero and \<^verbatim>\<open>NaN\<close> are false.\<close>

fun truthy :: "number \<Rightarrow> bool" where
  "truthy (Fin a) = (a \<noteq> 0)"
| "truthy NaN = False"
| "truthy _ = True"

fun nfloor :: "number \<Rightarrow> number" where
  "nfloor (Fin a) = Fin (of_int \<lfloor>a\<rfloor>)"
| "nfloor v = v"

fun nsin :: "number \<Rightarrow> number" where
  "nsin (Fin a) = Fin (sin a)"
| "nsin _ = NaN"

fun nasin :: "number \<Rightarrow> number" where
  "nasin (Fin a) = (if - 1 \<le> a \<and> a \<le> 1 then Fin (arcsin a) else NaN)"
| "nasin _ = NaN"

definition isOddInteger :: "real \<Rightarrow> bool" where
  "isOddInteger e = (e = of_int \<lfloor>e\<rfloor> \<and> odd \<lfloor>e\<rfloor>)"

text \<open>\<^verbatim>\<open>Math.pow\<close>, case by case as the language defines it.\<close>

fun npow :: "number \<Rightarrow> number \<Rightarrow> number" where
  "npow _ NaN = NaN"
| "npow b (Fin e) =
     (if e = 0 then Fin 1
      else case b of
        NaN \<Rightarrow> NaN
      | PInf \<Rightarrow> (if 0 < e then PInf else Fin 0)
      | NInf \<Rightarrow> (if 0 < e then (if isOddInteger e then NInf else PInf) else Fin 0)
      | Fin a \<Rightarrow>
          (if a = 0 then (if 0 < e then Fin 0 else PInf)
           else if 0 < a then Fin (a powr e)
           else if e = of_int \<lfloor>e\<rfloor> then Fin (a powi \<lfloor>e\<rfloor>)
           else NaN))"
| "npow NaN _ = NaN"
| "npow PInf PInf = PInf"
| "npow PInf NInf = Fin 0"
| "npow NInf PInf = PInf"
| "npow NInf NInf = Fin 0"
| "npow (Fin a) PInf =
     (if a = 0 then Fin 0
      else if 1 < \<bar>a\<bar> then PInf else if \<bar>a\<bar> = 1 then NaN else Fin 0)"
| "npow (Fin a) NInf =
     (if a = 0 then PInf
      else if 1 < \<bar>a\<bar> then Fin 0 else if \<bar>a\<bar> = 1 then NaN else PInf)"

section \<open>Rect (rect.js)\<close>

record rect =
  topLeftX :: number
  topLeftY :: number
  width :: number
  height :: number

definition Rect :: "number \<Rightarrow> number \<Rightarrow> number \<Rightarrow> number \<Rightarrow> rect" where
  "Rect tlx tly w h = \<lparr>topLeftX = tlx, topLeftY = tly, width = w, height = h\<rparr>"

section \<open>The 2D drawing context\<close>

text \<open>
  The context \<^verbatim>\<open>ctx\<close> of \<^verbatim>\<open>index.js\<close> is a global; here it is passed and returned.
  Its bitmap is represented by the sequence of painting commands applied to a cleared
  bitmap, each with the arguments and the styles it was issued with. A \<^verbatim>\<open>clearRect\<close>
  that covers the whole bitmap gives the cleared bitmap back; any other one is a command
  of the sequence. The methods follow the HTML standard: the setters of the line width
  and of the dash list ignore the values the standard rejects, and
  \<^verbatim>\<open>createRadialGradient\<close> throws on a non-finite argument and on a negative radius.
  A fill or a stroke is recorded as it is issued, also where it would change no pixel
  (a rectangle of no extent, a coordinate that is not finite), and what the canvas clips
  away is not computed. \<^verbatim>\<open>console.log\<close> paints nothing and is left out.
\<close>

datatype error = TypeError | IndexSizeError

record gradient =
  grad_x0 :: number
  grad_y0 :: number
  grad_r0 :: number
  grad_x1 :: number
  grad_y1 :: number
  grad_r1 :: number
  grad_stops :: "(real \<times> string) list"

datatype style = Color string | Gradient gradient

datatype segment = MoveTo number number | LineTo number number

datatype paint =
    ClearRect number number number number
  | FillRect style number number number number
  | Stroke style number "number list" "segment list"

record ctx =
  canvas_width :: nat
  canvas_height :: nat
  fillStyle :: style
  strokeStyle :: style
  lineWidth :: number
  lineDash :: "number list"
  path :: "segment list"
  surface :: "paint list"

text \<open>What a call leaves behind: it returns, or it throws and the context stays as it was
  at the throw. A call that never returns has no outcome (\<open>None\<close>).\<close>

datatype outcome = Returns ctx | Throws error ctx

fun isFinite :: "number \<Rightarrow> bool" where
  "isFinite (Fin a) = True"
| "isFinite _ = False"

definition clearRect :: "number \<Rightarrow> number \<Rightarrow> number \<Rightarrow> number \<Rightarrow> ctx \<Rightarrow> ctx" where
  "clearRect x y w h c =
     (if \<not> (isFinite x \<and> isFinite y \<and> isFinite w \<and> isFinite h) then c
      else if nle x (Fin 0) \<and> nle y (Fin 0)
              \<and> nle (Fin (real (canvas_width c))) (nadd x w)
              \<and> nle (Fin (real (canvas_height c))) (nadd y h)
      then c\<lparr>surface := []\<rparr>
      else c\<lparr>surface := surface c @ [ClearRect x y w h]\<rparr>)"

definition fillRect :: "number \<Rightarrow> number \<Rightarrow> number \<Rightarrow> number \<Rightarrow> ctx \<Rightarrow> ctx" where
  "fillRect x y w h c = c\<lparr>surface := surface c @ [FillRect (fillStyle c) x y w h]\<rparr>"

definition set_fillStyle :: "style \<Rightarrow> ctx \<Rightarrow> ctx" where
  "set_fillStyle s c = c\<lparr>fillStyle := s\<rparr>"

definition set_strokeStyle :: "style \<Rightarrow> ctx \<Rightarrow> ctx" where
  "set_strokeStyle s c = c\<lparr>strokeStyle := s\<rparr>"

definition set_lineWidth :: "number \<Rightarrow> ctx \<Rightarrow> ctx" where
  "set_lineWidth v c = (if isFinite v \<and> nlt (Fin 0) v then c\<lparr>lineWidth := v\<rparr> else c)"

definition setLineDash :: "number list \<Rightarrow> ctx \<Rightarrow> ctx" where
  "setLineDash segs c =
     (if \<exists>v \<in> set segs. \<not> isFinite v \<or> nlt v (Fin 0) then c
      else if odd (length segs) then c\<lparr>lineDash := segs @ segs\<rparr>
      else c\<lparr>lineDash := segs\<rparr>)"

definition beginPath :: "ctx \<Rightarrow> ctx" where
  "beginPath c = c\<lparr>path := []\<rparr>"

definition moveTo :: "number \<Rightarrow> number \<Rightarrow> ctx \<Rightarrow> ctx" where
  "moveTo x y c = c\<lparr>path := path c @ [MoveTo x y]\<rparr>"

definition lineTo :: "number \<Rightarrow> number \<Rightarrow> ctx \<Rightarrow> ctx" where
  "lineTo x y c = c\<lparr>path := path c @ [LineTo x y]\<rparr>"

definition stroke :: "ctx \<Rightarrow> ctx" where
  "stroke c =
     c\<lparr>surface := surface c @ [Stroke (strokeStyle c) (lineWidth c) (lineDash c) (path c)]\<rparr>"

definition createRadialGradient ::
  "number \<Rightarrow> number \<Rightarrow> number \<Rightarrow> number \<Rightarrow> number \<Rightarrow> number \<Rightarrow> error + gradient" where
  "createRadialGradient a0 b0 r0 a1 b1 r1 =
     (if \<not> (isFinite a0 \<and> isFinite b0 \<and> isFinite r0
             \<and> isFinite a1 \<and> isFinite b1 \<and> isFinite r1) then Inl TypeError
      else if nlt r0 (Fin 0) \<or> nlt r1 (Fin 0) then Inl IndexSizeError
      else Inr \<lparr>grad_x0 = a0, grad_y0 = b0, grad_r0 = r0,
                grad_x1 = a1, grad_y1 = b1, grad_r1 = r1, grad_stops = []\<rparr>)"

text \<open>The offsets the code passes are literals of \<open>[0, 1]\<close> and its colours are valid, so
  that \<^verbatim>\<open>addColorStop\<close> has no failing branch to model.\<close>

definition addColorStop :: "real \<Rightarrow> string \<Rightarrow> gradient \<Rightarrow> gradient" where
  "addColorStop off col g = g\<lparr>grad_stops := grad_stops g @ [(off, col)]\<rparr>"

definition andThen :: "outcome option \<Rightarrow> (ctx \<Rightarrow> outcome option) \<Rightarrow> outcome option" where
  "andThen r f =
     (case r of
        None \<Rightarrow> None
      | Some (Returns c) \<Rightarrow> f c
      | Some (Throws e c) \<Rightarrow> Some (Throws e c))"

section \<open>index.js\<close>

definition getPPLineWidth :: "number \<Rightarrow> number" where
  "getPPLineWidth v = (if truthy (nmod v (Fin 2)) then Fin 3 else Fin 4)"

definition drawLine :: "number \<Rightarrow> number \<Rightarrow> number \<Rightarrow> number \<Rightarrow> ctx \<Rightarrow> ctx" where
  "drawLine fromX fromY toX toY c =
     stroke (lineTo toX toY (moveTo fromX fromY
       (beginPath (setLineDash [] (set_strokeStyle (Color ''#000'') c)))))"

definition generateRingGradient ::
  "number \<Rightarrow> number \<Rightarrow> number \<Rightarrow> number \<Rightarrow> error + gradient" where
  "generateRingGradient x y inR outR = createRadialGradient x y inR x y outR"

definition ringStops :: "gradient \<Rightarrow> gradient" where
  "ringStops grd =
     addColorStop 1 ''#fff0'' (addColorStop 0.9 ''#fff'' (addColorStop 0.55 ''#000''
       (addColorStop 0.45 ''#000'' (addColorStop 0.1 ''#fff'' (addColorStop 0 ''#fff0'' grd)))))"

text \<open>The \<^verbatim>\<open>while\<close> loop of \<^verbatim>\<open>drawTargetMoire\<close>, on its variables \<^verbatim>\<open>curR\<close> and
  \<^verbatim>\<open>step\<close>. Nothing follows the loop, so its \<^verbatim>\<open>return\<close> and its two \<^verbatim>\<open>break\<close>s
  all end the call.\<close>

partial_function (option) ringLoop ::
  "number \<Rightarrow> number \<Rightarrow> number \<Rightarrow> rect \<Rightarrow> number \<Rightarrow> number \<Rightarrow> number \<Rightarrow> nat \<Rightarrow> ctx
     \<Rightarrow> outcome option" where
  "ringLoop x y outR rect startR q curR step c =
     (if nle curR outR then
        (let prgValue = nmul startR (npow q (Fin (real step - 1))) in
         if ngt (nadd curR prgValue) outR then Some (Returns c)
         else if nle prgValue (Fin 1) then Some (Returns c)
         else if nlt curR (Fin 5) then Some (Returns c)
         else case generateRingGradient x y (nsub curR (Fin 5)) (nadd curR prgValue) of
                Inl e \<Rightarrow> Some (Throws e c)
              | Inr grd \<Rightarrow>
                  ringLoop x y outR rect startR q (nadd curR prgValue) (step + 1)
                    (fillRect (topLeftX rect) (topLeftY rect) (width rect) (height rect)
                       (set_fillStyle (Gradient (ringStops grd)) c)))
      else Some (Returns c))"

definition drawTargetMoire ::
  "number \<Rightarrow> number \<Rightarrow> number \<Rightarrow> rect \<Rightarrow> ctx \<Rightarrow> outcome option" where
  "drawTargetMoire x y outR rect c =
     (let startR0 = nfloor (ndiv (height rect) (Fin 50));
          startR = (if nlt (ndiv outR startR0) (Fin 20) then ndiv outR (Fin 10) else startR0);
          curR = startR;
          q = npow (ndiv (Fin 1) startR) (ndiv (Fin 1) (ndiv outR (Fin 5)))
      in ringLoop x y outR rect startR q curR 1 c)"

text \<open>The \<^verbatim>\<open>while\<close> loop of \<^verbatim>\<open>drawChessMoire\<close>, on \<^verbatim>\<open>lineY\<close> and \<^verbatim>\<open>startOffset\<close>.\<close>

partial_function (option) chessLoop ::
  "rect \<Rightarrow> number \<Rightarrow> number \<Rightarrow> number \<Rightarrow> ctx \<Rightarrow> outcome option" where
  "chessLoop rect cellSize lineY startOffset c =
     (if nle lineY (height rect) then
        chessLoop rect cellSize (nadd lineY cellSize)
          (if neq startOffset cellSize then Fin 0 else cellSize)
          (stroke (lineTo (nadd (topLeftX rect) (width rect)) lineY
             (moveTo (nadd (topLeftX rect) startOffset) lineY (beginPath c))))
      else Some (Returns c))"

definition drawChessMoire :: "rect \<Rightarrow> ctx \<Rightarrow> outcome option" where
  "drawChessMoire rect c =
     (let c1 = set_strokeStyle (Color ''#000'') c;
          cellSize = nmul (getPPLineWidth (height rect)) (Fin 2);
          c2 = set_lineWidth cellSize c1;
          c3 = setLineDash [cellSize, cellSize] c2;
          lineY = ndiv cellSize (Fin 2);
          startOffset = Fin 0
      in chessLoop rect cellSize lineY startOffset c3)"

definition drawRect :: "string \<Rightarrow> rect \<Rightarrow> ctx \<Rightarrow> ctx" where
  "drawRect fill rect c =
     fillRect (topLeftX rect) (topLeftY rect) (width rect) (height rect)
       (set_fillStyle (Color fill) c)"

definition getCornerTargetSize :: "rect \<Rightarrow> number" where
  "getCornerTargetSize rect =
     (let a = ndiv (width rect) (Fin 2);
          b = ndiv (height rect) (Fin 2);
          y = nsub (ndiv (Fin pi) (Fin 4)) (nasin (ndiv (nneg (nsub b a)) b))
      in nsub b (nmul b (nsin y)))"

text \<open>\<^verbatim>\<open>drawTable\<close>, split where its comments split it. The frame rectangle:\<close>

definition frameLayout :: "number \<Rightarrow> number \<Rightarrow> rect" where
  "frameLayout canvasWidth canvasHeight =
     (let frameHeight = canvasHeight;
          frameWidth = nfloor (ndiv (nmul frameHeight (Fin 4)) (Fin 3));
          borderWidth = nfloor (ndiv (nsub canvasWidth frameWidth) (Fin 2))
      in Rect borderWidth (Fin 0) frameWidth canvasHeight)"

text \<open>``Draw center moire target.''\<close>

definition drawCenterTarget :: "rect \<Rightarrow> ctx \<Rightarrow> outcome option" where
  "drawCenterTarget frameRect =
     drawTargetMoire (nadd (topLeftX frameRect) (ndiv (width frameRect) (Fin 2)))
       (ndiv (height frameRect) (Fin 2)) (ndiv (height frameRect) (Fin 2)) frameRect"

text \<open>``Find position for corner targets and draw it.''\<close>

definition cornerTargetRad :: "rect \<Rightarrow> number" where
  "cornerTargetRad frameRect = ndiv (getCornerTargetSize frameRect) (Fin 2)"

definition drawCornerTargets :: "rect \<Rightarrow> ctx \<Rightarrow> outcome option" where
  "drawCornerTargets frameRect c =
     andThen (andThen (andThen
       (drawTargetMoire
          (nadd (topLeftX frameRect) (cornerTargetRad frameRect))
          (nadd (topLeftY frameRect) (cornerTargetRad frameRect))
          (cornerTargetRad frameRect) frameRect c)
       (drawTargetMoire
          (nsub (nadd (topLeftX frameRect) (width frameRect)) (cornerTargetRad frameRect))
          (nadd (topLeftY frameRect) (cornerTargetRad frameRect))
          (cornerTargetRad frameRect) frameRect))
       (drawTargetMoire
          (nadd (topLeftX frameRect) (cornerTargetRad frameRect))
          (nsub (nadd (topLeftY frameRect) (height frameRect)) (cornerTargetRad frameRect))
          (cornerTargetRad frameRect) frameRect))
       (drawTargetMoire
          (nsub (nadd (topLeftX frameRect) (width frameRect)) (cornerTargetRad frameRect))
          (nsub (nadd (topLeftY frameRect) (height frameRect)) (cornerTargetRad frameRect))
          (cornerTargetRad frameRect) frameRect)"

text \<open>``Draw horizontal lines'' and ``Draw vertical lines''.\<close>

definition drawGuideLines :: "rect \<Rightarrow> number \<Rightarrow> ctx \<Rightarrow> ctx" where
  "drawGuideLines frameRect frameWidth c =
     (let rad = cornerTargetRad frameRect;
          c1 = set_lineWidth (getPPLineWidth (height frameRect)) c;
          c2 = drawLine (topLeftX frameRect) (ndiv (height frameRect) (Fin 2))
                 (nadd (topLeftX frameRect) (width frameRect))
                 (ndiv (height frameRect) (Fin 2)) c1;
          c3 = drawLine (topLeftX frameRect) (nadd (topLeftY frameRect) rad)
                 (nadd (topLeftX frameRect) (width frameRect))
                 (nadd (topLeftY frameRect) rad) c2;
          c4 = drawLine (topLeftX frameRect)
                 (nsub (nadd (topLeftY frameRect) (height frameRect)) rad)
                 (nadd (topLeftX frameRect) (width frameRect))
                 (nsub (nadd (topLeftY frameRect) (height frameRect)) rad) c3;
          c5 = set_lineWidth (getPPLineWidth frameWidth) c4;
          c6 = drawLine (nadd (topLeftX frameRect) (ndiv (width frameRect) (Fin 2)))
                 (topLeftY frameRect)
                 (nadd (topLeftX frameRect) (ndiv (width frameRect) (Fin 2)))
                 (height frameRect) c5;
          c7 = drawLine (nadd (topLeftX frameRect) rad) (topLeftY frameRect)
                 (nadd (topLeftX frameRect) rad) (height frameRect) c6
      in drawLine (nsub (nadd (topLeftX frameRect) (width frameRect)) rad)
           (topLeftY frameRect)
           (nsub (nadd (topLeftX frameRect) (width frameRect)) rad)
           (height frameRect) c7)"

definition drawTable :: "ctx \<Rightarrow> outcome option" where
  "drawTable c =
     (let canvasWidth = Fin (real (canvas_width c));
          canvasHeight = Fin (real (canvas_height c));
          c1 = clearRect (Fin 0) (Fin 0) canvasWidth canvasHeight c;
          c2 = drawRect ''#000'' (Rect (Fin 0) (Fin 0) canvasWidth canvasHeight) c1;
          frameRect = frameLayout canvasWidth canvasHeight;
          c3 = drawRect ''#fff'' frameRect c2
      in andThen (andThen (andThen
           (drawChessMoire frameRect c3)
           (drawCenterTarget frameRect))
           (drawCornerTargets frameRect))
           (\<lambda>c'. Some (Returns (drawGuideLines frameRect (width frameRect) c'))))"

text \<open>\<^verbatim>\<open>canvasResize\<close> assigns the size of the canvas before it calls \<^verbatim>\<open>drawTable\<close>;
  the assignment clears the bitmap and resets the context to its defaults.\<close>

definition freshCtx :: "nat \<Rightarrow> nat \<Rightarrow> ctx" where
  "freshCtx w h =
     \<lparr>canvas_width = w, canvas_height = h,
      fillStyle = Color ''#000000'', strokeStyle = Color ''#000000'',
      lineWidth = Fin 1, lineDash = [], path = [], surface = []\<rparr>"

definition canvasResize :: "nat \<Rightarrow> nat \<Rightarrow> outcome option" where
  "canvasResize w h = drawTable (freshCtx w h)"

section \<open>What the renderers leave on the surface\<close>

text \<open>The gradient of the ring that starts at \<open>curR\<close> and is \<open>prgValue\<close> wide, before
  its colour stops are added, and the fill of \<open>rect\<close> with it.\<close>

definition ringGradient :: "number \<Rightarrow> number \<Rightarrow> number \<Rightarrow> number \<Rightarrow> gradient" where
  "ringGradient x y curR prgValue =
     \<lparr>grad_x0 = x, grad_y0 = y, grad_r0 = nsub curR (Fin 5),
      grad_x1 = x, grad_y1 = y, grad_r1 = nadd curR prgValue, grad_stops = []\<rparr>"

definition paintRing :: "rect \<Rightarrow> gradient \<Rightarrow> ctx \<Rightarrow> ctx" where
  "paintRing rect grd c =
     fillRect (topLeftX rect) (topLeftY rect) (width rect) (height rect)
       (set_fillStyle (Gradient (ringStops grd)) c)"

definition paintRings :: "rect \<Rightarrow> gradient list \<Rightarrow> ctx \<Rightarrow> ctx" where
  "paintRings rect grds c = foldl (\<lambda>c' grd. paintRing rect grd c') c grds"


text \<open>The path of the \<open>k\<close>-th line of the chess moire (\<open>k\<close> from 0) for the cell
  size \<open>cs\<close>, the stroke of that line, the number of lines that fit a height \<open>h\<close>, and
  the context after \<open>n\<close> lines.\<close>

definition linePath :: "rect \<Rightarrow> real \<Rightarrow> nat \<Rightarrow> segment list" where
  "linePath rect cs k =
     [MoveTo (nadd (topLeftX rect) (Fin (if even k then 0 else cs))) (Fin (cs / 2 + real k * cs)),
      LineTo (nadd (topLeftX rect) (width rect)) (Fin (cs / 2 + real k * cs))]"

definition chessLineAt :: "rect \<Rightarrow> real \<Rightarrow> nat \<Rightarrow> ctx \<Rightarrow> ctx" where
  "chessLineAt rect cs k c =
     c\<lparr>path := linePath rect cs k,
       surface := surface c @ [Stroke (strokeStyle c) (lineWidth c) (lineDash c) (linePath rect cs k)]\<rparr>"

definition lineCount :: "real \<Rightarrow> real \<Rightarrow> nat" where
  "lineCount cs h = (if cs / 2 \<le> h then nat \<lfloor>(h - cs / 2) / cs\<rfloor> + 1 else 0)"

definition chessLines :: "rect \<Rightarrow> real \<Rightarrow> nat \<Rightarrow> ctx \<Rightarrow> ctx" where
  "chessLines rect cs n c =
     c\<lparr>strokeStyle := Color ''#000'', lineWidth := Fin cs, lineDash := [Fin cs, Fin cs],
       path := (if n = 0 then path c else linePath rect cs (n - 1)),
       surface := surface c @
         map (\<lambda>k. Stroke (Color ''#000'') (Fin cs) [Fin cs, Fin cs] (linePath rect cs k)) [0..<n]\<rparr>"

text \<open>The context that one call of \<^verbatim>\<open>drawTable\<close> leaves on a \<open>W\<close> by \<open>H\<close> canvas,
  given the cell size and the number of lines of the chess moire and the rings of the five
  targets in the order they are painted.\<close>

definition rendered :: "nat \<Rightarrow> nat \<Rightarrow> real \<Rightarrow> nat \<Rightarrow> gradient list \<Rightarrow> ctx \<Rightarrow> ctx" where
  "rendered W H cs n gs c =
     (let frameRect = frameLayout (Fin (real W)) (Fin (real H)) in
      drawGuideLines frameRect (width frameRect)
        (paintRings frameRect gs
           (chessLines frameRect cs n
              (drawRect ''#fff'' frameRect
                 (drawRect ''#000'' (Rect (Fin 0) (Fin 0) (Fin (real W)) (Fin (real H)))
                    (clearRect (Fin 0) (Fin 0) (Fin (real W)) (Fin (real H)) c))))))"

text \<open>A Number that is finite or \<^verbatim>\<open>NaN\<close>: what the corner geometry can return.\<close>

fun finOrNaN :: "number \<Rightarrow> bool" where
  "finOrNaN (Fin a) = True"
| "finOrNaN NaN = True"
| "finOrNaN _ = False"

text \<open>The closed form of the corner diameter as the specification words it, on the reals:
  for the half-width \<open>a\<close> and the half-height \<open>b\<close>,
  \<open>y = \<pi>/4 - asin (-(b - a) / b)\<close> and \<open>X = b - b \<sqdot> sin y\<close>.\<close>

definition specCornerDiameter :: "real \<Rightarrow> real \<Rightarrow> real" where
  "specCornerDiameter a b = (let y = pi / 4 - arcsin (- (b - a) / b) in b - b * sin y)"

section \<open>Number arithmetic on finite values\<close>

lemma nsub_Fin [simp]: "nsub (Fin a) (Fin b) = Fin (a - b)"
  by (simp add: nsub_def)

lemma nle_Fin [simp]: "nle (Fin a) (Fin b) = (a \<le> b)"
  by (auto simp: nle_def neq_def)

lemma ngt_Fin [simp]: "ngt (Fin a) (Fin b) = (b < a)"
  by (simp add: ngt_def)

lemma neq_Fin [simp]: "neq (Fin a) (Fin b) = (a = b)"
  by (simp add: neq_def)

lemma nle_NaN [simp]: "nle NaN v = False" "nle v NaN = False"
  by (cases v; simp add: nle_def neq_def)+

lemma ntrunc_of_int [simp]: "ntrunc (of_int k) = k"
  by (simp add: ntrunc_def)

lemma getPPLineWidth_int:
  "getPPLineWidth (Fin (of_int v)) = (if odd v then Fin 3 else Fin 4)"
proof -
  have half: "ntrunc (of_int v / 2) = (if 0 \<le> v then v div 2 else - ((- v) div 2))"
  proof (cases "0 \<le> v")
    case True
    then show ?thesis
      by (simp add: ntrunc_def floor_divide_of_int_eq [of v 2, simplified])
  next
    case False
    have "\<lceil>(of_int v :: real) / 2\<rceil> = - \<lfloor>(of_int (- v) :: real) / of_int 2\<rfloor>"
      by (simp add: ceiling_def)
    also have "\<dots> = - ((- v) div 2)"
      by (simp only: floor_divide_of_int_eq)
    finally show ?thesis using False
      by (simp add: ntrunc_def)
  qed
  have "(of_int v :: real) - 2 * of_int (ntrunc (of_int v / 2)) = 0 \<longleftrightarrow> even v"
  proof -
    have "(of_int v :: real) - 2 * of_int (ntrunc (of_int v / 2))
            = of_int (v - 2 * ntrunc (of_int v / 2))"
      by simp
    moreover have "v - 2 * ntrunc (of_int v / 2) = 0 \<longleftrightarrow> even v"
      unfolding half by (cases "0 \<le> v") presburger+
    ultimately show ?thesis
      by (simp only: of_int_eq_0_iff)
  qed
  then show ?thesis
    by (simp add: getPPLineWidth_def)
qed

lemma frameLayout_Fin:
  "frameLayout (Fin w) (Fin h) =
     \<lparr>topLeftX = Fin (of_int \<lfloor>(w - of_int \<lfloor>h * 4 / 3\<rfloor>) / 2\<rfloor>), topLeftY = Fin 0,
      width = Fin (of_int \<lfloor>h * 4 / 3\<rfloor>), height = Fin h\<rparr>"
  by (simp add: frameLayout_def Rect_def)

lemma frameLayout_1200_900:
  "frameLayout (Fin 1200) (Fin 900) = Rect (Fin 0) (Fin 0) (Fin 1200) (Fin 900)"
  by (simp add: frameLayout_Fin Rect_def)

lemma drawTable_1200_900:
  assumes "canvas_width c = 1200" "canvas_height c = 900"
  shows "drawTable c =
              andThen (andThen (andThen
                (drawChessMoire (Rect (Fin 0) (Fin 0) (Fin 1200) (Fin 900))
                   (drawRect ''#fff'' (Rect (Fin 0) (Fin 0) (Fin 1200) (Fin 900))
                      (drawRect ''#000'' (Rect (Fin 0) (Fin 0) (Fin 1200) (Fin 900))
                         (clearRect (Fin 0) (Fin 0) (Fin 1200) (Fin 900) c))))
                (drawTargetMoire (Fin 600) (Fin 450) (Fin 450)
                   (Rect (Fin 0) (Fin 0) (Fin 1200) (Fin 900))))
                (drawCornerTargets (Rect (Fin 0) (Fin 0) (Fin 1200) (Fin 900))))
                (\<lambda>c'. Some (Returns (drawGuideLines (Rect (Fin 0) (Fin 0) (Fin 1200) (Fin 900))
                                        (Fin 1200) c')))"
  using assms
  by (simp add: drawTable_def frameLayout_1200_900 drawCenterTarget_def Let_def)
     (simp add: Rect_def)

section \<open>The ring loop\<close>

lemma npow_Fin_nat: "\<exists>p. npow (Fin q) (Fin (real n)) = Fin p"
  by (cases "n = 0") auto

lemma npow_zero [simp]: "npow q (Fin 0) = Fin 1"
  by simp

lemma generateRingGradient_Fin:
  "0 \<le> a \<Longrightarrow> 0 \<le> b \<Longrightarrow>
   generateRingGradient (Fin x) (Fin y) (Fin a) (Fin b)
     = Inr \<lparr>grad_x0 = Fin x, grad_y0 = Fin y, grad_r0 = Fin a,
            grad_x1 = Fin x, grad_y1 = Fin y, grad_r1 = Fin b, grad_stops = []\<rparr>"
  by (simp add: generateRingGradient_def createRadialGradient_def)

lemma ringLoop_step:
  assumes "npow q (Fin (real step - 1)) = Fin p"
  shows "ringLoop x y (Fin r) rect (Fin sr) q (Fin cr) step c =
     (if cr \<le> r \<and> cr + sr * p \<le> r \<and> 1 < sr * p \<and> 5 \<le> cr then
        case generateRingGradient x y (Fin (cr - 5)) (Fin (cr + sr * p)) of
          Inl e \<Rightarrow> Some (Throws e c)
        | Inr grd \<Rightarrow>
            ringLoop x y (Fin r) rect (Fin sr) q (Fin (cr + sr * p)) (step + 1)
              (fillRect (topLeftX rect) (topLeftY rect) (width rect) (height rect)
                 (set_fillStyle (Gradient (ringStops grd)) c))
      else Some (Returns c))"
  by (subst ringLoop.simps)
     (simp add: assms Let_def not_less not_le del: npow.simps split: sum.split)

lemma ringLoop_Fin:
  assumes "1 \<le> step"
  shows "\<exists>gs. (\<forall>c. ringLoop (Fin x) (Fin y) (Fin r) rect (Fin sr) (Fin q) (Fin cr) step c
                     = Some (Returns (paintRings rect gs c)))
            \<and> real (length gs) \<le> max 0 (r - cr)
            \<and> (\<forall>g \<in> set gs. \<exists>cr' prg. 5 \<le> cr' \<and> 1 < prg \<and> cr' + prg \<le> r
                   \<and> g = ringGradient (Fin x) (Fin y) (Fin cr') (Fin prg))"
  using assms
proof (induction "nat \<lfloor>r - cr\<rfloor>" arbitrary: cr step rule: less_induct)
  case less
  obtain p where p: "npow (Fin q) (Fin (real step - 1)) = Fin p"
    using npow_Fin_nat [of q "step - 1"] less.prems by (auto simp: of_nat_diff)
  define prg where "prg = sr * p"
  show ?case
  proof (cases "cr \<le> r \<and> cr + prg \<le> r \<and> 1 < prg \<and> 5 \<le> cr")
    case False
    then have "\<forall>c. ringLoop (Fin x) (Fin y) (Fin r) rect (Fin sr) (Fin q) (Fin cr) step c
                     = Some (Returns (paintRings rect [] c))"
      by (subst ringLoop_step [OF p]) (auto simp: prg_def paintRings_def)
    then show ?thesis
      by (intro exI [of _ "[]"]) simp
  next
    case True
    have "nat \<lfloor>r - (cr + prg)\<rfloor> < nat \<lfloor>r - cr\<rfloor>"
      using True by linarith
    from less.hyps [OF this, of "Suc step"]
    obtain gs where gs:
      "\<And>c. ringLoop (Fin x) (Fin y) (Fin r) rect (Fin sr) (Fin q) (Fin (cr + prg)) (Suc step) c
             = Some (Returns (paintRings rect gs c))"
      "real (length gs) \<le> max 0 (r - (cr + prg))"
      "\<forall>g \<in> set gs. \<exists>cr' prg. 5 \<le> cr' \<and> 1 < prg \<and> cr' + prg \<le> r
                   \<and> g = ringGradient (Fin x) (Fin y) (Fin cr') (Fin prg)"
      by auto
    let ?g = "ringGradient (Fin x) (Fin y) (Fin cr) (Fin prg)"
    have gen: "generateRingGradient (Fin x) (Fin y) (Fin (cr - 5)) (Fin (cr + prg)) = Inr ?g"
      using True by (simp add: generateRingGradient_Fin ringGradient_def)
    have "\<forall>c. ringLoop (Fin x) (Fin y) (Fin r) rect (Fin sr) (Fin q) (Fin cr) step c
                 = Some (Returns (paintRings rect (?g # gs) c))"
      using True
      by (subst ringLoop_step [OF p])
         (simp add: prg_def [symmetric] gen gs(1) paintRings_def paintRing_def)
    moreover have "real (length (?g # gs)) \<le> max 0 (r - cr)"
      using gs(2) True by simp
    moreover have "\<forall>g \<in> set (?g # gs). \<exists>cr' prg. 5 \<le> cr' \<and> 1 < prg \<and> cr' + prg \<le> r
                   \<and> g = ringGradient (Fin x) (Fin y) (Fin cr') (Fin prg)"
      using gs(3) True by auto
    ultimately show ?thesis
      by blast
  qed
qed


lemma ringLoop_NaN: "ringLoop x y outR rect startR q NaN step c = Some (Returns c)"
  by (subst ringLoop.simps) simp

lemma ringLoop_first_stop:
  assumes "\<not> (5 \<le> sr \<and> 2 * sr \<le> r)"
  shows "ringLoop x y (Fin r) rect (Fin sr) q (Fin sr) (Suc 0) c = Some (Returns c)"
proof -
  have "npow q (Fin (real (Suc 0) - 1)) = Fin 1"
    by simp
  from ringLoop_step [OF this] show ?thesis
    using assms by auto
qed

lemma startR_cases:
  "(if nlt (ndiv (Fin r) s0) (Fin 20) then ndiv (Fin r) (Fin 10) else s0) \<noteq> PInf
   \<and> (if nlt (ndiv (Fin r) s0) (Fin 20) then ndiv (Fin r) (Fin 10) else s0) \<noteq> NInf"
  by (cases s0) auto

lemma drawTargetMoire_Fin:
  "\<exists>gs. (\<forall>c. drawTargetMoire (Fin x) (Fin y) (Fin r) rect c
               = Some (Returns (paintRings rect gs c)))
       \<and> real (length gs) \<le> max 0 (r - 5)
       \<and> (\<forall>g \<in> set gs. \<exists>cr prg. 5 \<le> cr \<and> 1 < prg \<and> cr + prg \<le> r
              \<and> g = ringGradient (Fin x) (Fin y) (Fin cr) (Fin prg))"
proof -
  define s0 where "s0 = nfloor (ndiv (height rect) (Fin 50))"
  define startR where
    "startR = (if nlt (ndiv (Fin r) s0) (Fin 20) then ndiv (Fin r) (Fin 10) else s0)"
  define q where "q = npow (ndiv (Fin 1) startR) (ndiv (Fin 1) (ndiv (Fin r) (Fin 5)))"
  have unfold: "drawTargetMoire (Fin x) (Fin y) (Fin r) rect c
                  = ringLoop (Fin x) (Fin y) (Fin r) rect startR q startR (Suc 0) c" for c
    by (simp add: drawTargetMoire_def Let_def s0_def startR_def q_def del: npow.simps)
  have stop: ?thesis if "\<And>c. ringLoop (Fin x) (Fin y) (Fin r) rect startR q startR (Suc 0) c
                              = Some (Returns c)"
    by (intro exI [of _ "[]"]) (simp add: unfold that paintRings_def)
  consider "startR = NaN" | sr where "startR = Fin sr"
    using startR_cases [of r s0] unfolding startR_def [symmetric] by (cases startR) auto
  then show ?thesis
  proof cases
    case 1
    then show ?thesis
      by (intro stop) (simp add: ringLoop_NaN)
  next
    case (2 sr)
    show ?thesis
    proof (cases "5 \<le> sr \<and> 2 * sr \<le> r")
      case False
      then show ?thesis
        by (intro stop) (simp add: 2 ringLoop_first_stop)
    next
      case True
      then have "q = Fin ((1 / sr) powr (1 / (r / 5)))"
        by (simp add: q_def 2)
      then obtain qq where qq: "q = Fin qq"
        by blast
      from ringLoop_Fin [of "Suc 0" x y r rect sr qq sr]
      obtain gs where gs:
        "\<And>c. ringLoop (Fin x) (Fin y) (Fin r) rect (Fin sr) (Fin qq) (Fin sr) (Suc 0) c
               = Some (Returns (paintRings rect gs c))"
        "real (length gs) \<le> max 0 (r - sr)"
        "\<forall>g \<in> set gs. \<exists>cr' prg. 5 \<le> cr' \<and> 1 < prg \<and> cr' + prg \<le> r
                   \<and> g = ringGradient (Fin x) (Fin y) (Fin cr') (Fin prg)"
        by auto
      have "real (length gs) \<le> max 0 (r - 5)"
        using gs(2) True by linarith
      then show ?thesis
        using gs(1,3) by (intro exI [of _ gs]) (simp add: unfold 2 qq)
    qed
  qed
qed


lemma paintRings_Cons:
  "paintRings rect (g # gs) c = paintRings rect gs (paintRing rect g c)"
  by (simp add: paintRings_def)


lemma drawTargetMoire_unfold:
  "drawTargetMoire x y outR rect c =
     ringLoop x y outR rect
       (if nlt (ndiv outR (nfloor (ndiv (height rect) (Fin 50)))) (Fin 20)
        then ndiv outR (Fin 10) else nfloor (ndiv (height rect) (Fin 50)))
       (npow (ndiv (Fin 1)
          (if nlt (ndiv outR (nfloor (ndiv (height rect) (Fin 50)))) (Fin 20)
           then ndiv outR (Fin 10) else nfloor (ndiv (height rect) (Fin 50))))
          (ndiv (Fin 1) (ndiv outR (Fin 5))))
       (if nlt (ndiv outR (nfloor (ndiv (height rect) (Fin 50)))) (Fin 20)
        then ndiv outR (Fin 10) else nfloor (ndiv (height rect) (Fin 50)))
       (Suc 0) c"
  by (simp add: drawTargetMoire_def Let_def del: npow.simps)


lemma drawTargetMoire_NaN: "drawTargetMoire x y NaN rect c = Some (Returns c)"
  unfolding drawTargetMoire_unfold by (subst ringLoop.simps) simp







section \<open>The corner geometry\<close>

lemma getCornerTargetSize_numbers:
  "getCornerTargetSize rect =
     nsub (ndiv (height rect) (Fin 2))
       (nmul (ndiv (height rect) (Fin 2))
          (nsin (nsub (ndiv (Fin pi) (Fin 4))
             (nasin (ndiv (nneg (nsub (ndiv (height rect) (Fin 2)) (ndiv (width rect) (Fin 2))))
                      (ndiv (height rect) (Fin 2)))))))"
  by (simp add: getCornerTargetSize_def Let_def)

lemma getCornerTargetSize_Fin:
  assumes "0 < h" "0 \<le> w" "w \<le> 2 * h"
  shows "getCornerTargetSize \<lparr>topLeftX = tx, topLeftY = ty, width = Fin w, height = Fin h\<rparr> =
           Fin (h / 2 - h / 2 * sin (pi / 4 - arcsin (- (h / 2 - w / 2) / (h / 2))))"
proof -
  have "- 1 \<le> - (h / 2 - w / 2) / (h / 2)" "- (h / 2 - w / 2) / (h / 2) \<le> 1"
    using assms by (simp_all add: field_simps)
  then show ?thesis
    using assms by (simp add: getCornerTargetSize_def Let_def)
qed

lemma getCornerTargetSize_outside:
  assumes "0 < h" "w < 0 \<or> 2 * h < w"
  shows "getCornerTargetSize \<lparr>topLeftX = tx, topLeftY = ty, width = Fin w, height = Fin h\<rparr> = NaN"
proof -
  have "\<not> (- 1 \<le> - (h / 2 - w / 2) / (h / 2) \<and> - (h / 2 - w / 2) / (h / 2) \<le> 1)"
    using assms by (auto simp: field_simps)
  then show ?thesis
    using assms by (auto simp add: getCornerTargetSize_def Let_def nsub_def)
qed

lemma getCornerTargetSize_square:
  assumes "0 < h"
  shows "getCornerTargetSize \<lparr>topLeftX = tx, topLeftY = ty, width = Fin h, height = Fin h\<rparr> =
           Fin (h / 2 - h / 2 * sin (pi / 4))"
  using getCornerTargetSize_Fin [of h h tx ty] assms by simp

lemma sin_corner_bounds:
  assumes "0 \<le> t" "t \<le> 1 / 3"
  shows "0 < sin (pi / 4 - arcsin t)" "sin (pi / 4 - arcsin t) < 1"
proof -
  have "(1 / 3 :: real) < sqrt 2 / 2"
  proof -
    have "(2 / 3 :: real) < sqrt 2"
      by (rule real_less_rsqrt) (simp add: power2_eq_square)
    then show ?thesis by simp
  qed
  then have "t < sqrt 2 / 2"
    using assms by linarith
  moreover have "sqrt 2 / 2 \<le> (1::real)"
    using sin_le_one [of "pi / 4"] by (simp add: sin_45)
  ultimately have "arcsin t < arcsin (sqrt 2 / 2)"
    using assms by (intro arcsin_less_arcsin) auto
  also have "arcsin (sqrt 2 / 2) = pi / 4"
    using arcsin_sin [of "pi / 4"] by (simp add: sin_45)
  finally have up: "arcsin t < pi / 4" .
  have "arcsin 0 \<le> arcsin t"
    using assms by (intro arcsin_le_arcsin) auto
  then have low: "0 \<le> arcsin t"
    by simp
  have y: "0 < pi / 4 - arcsin t" "pi / 4 - arcsin t < pi / 2"
    using up low pi_gt_zero by linarith+
  show "0 < sin (pi / 4 - arcsin t)"
    using y by (intro sin_gt_zero) linarith+
  have "sin (pi / 4 - arcsin t) < sin (pi / 2)"
    using y by (intro sin_monotone_2pi) linarith+
  then show "sin (pi / 4 - arcsin t) < 1"
    by simp
qed

lemma frame_width_bounds:
  "real H \<le> of_int \<lfloor>real H * 4 / 3\<rfloor>" "of_int \<lfloor>real H * 4 / 3\<rfloor> \<le> real H * 4 / 3"
proof -
  have "int H \<le> \<lfloor>real H * 4 / 3\<rfloor>"
    by (simp add: le_floor_iff)
  then show "real H \<le> of_int \<lfloor>real H * 4 / 3\<rfloor>"
    by linarith
  show "of_int \<lfloor>real H * 4 / 3\<rfloor> \<le> real H * 4 / 3"
    by (rule of_int_floor_le)
qed

lemma cornerTargetRad_bounds:
  assumes "0 < h" "h \<le> w" "w \<le> h * 4 / 3"
  shows "\<exists>rad. cornerTargetRad \<lparr>topLeftX = tx, topLeftY = ty, width = Fin w, height = Fin h\<rparr>
                  = Fin rad \<and> 0 < rad \<and> rad < h / 4"
proof -
  define t where "t = - (h / 2 - w / 2) / (h / 2)"
  have t: "0 \<le> t" "t \<le> 1 / 3"
    using assms by (simp_all add: t_def field_simps)
  have eq: "getCornerTargetSize \<lparr>topLeftX = tx, topLeftY = ty, width = Fin w, height = Fin h\<rparr>
              = Fin (h / 2 - h / 2 * sin (pi / 4 - arcsin t))"
    unfolding t_def using assms by (intro getCornerTargetSize_Fin) linarith+
  have "0 < h / 2 * (1 - sin (pi / 4 - arcsin t))"
    using sin_corner_bounds(2) [OF t] assms by simp
  moreover have "h / 2 * (1 - sin (pi / 4 - arcsin t)) < h / 2 * 1"
    using sin_corner_bounds(1) [OF t] assms by (intro mult_strict_left_mono) simp_all
  ultimately show ?thesis
    by (intro exI [of _ "(h / 2 - h / 2 * sin (pi / 4 - arcsin t)) / 2"])
       (simp add: cornerTargetRad_def eq algebra_simps)
qed


lemma drawCornerTargets_radius:
  "drawCornerTargets frameRect c =
     (let rad = ndiv (getCornerTargetSize frameRect) (Fin 2) in
      andThen (andThen (andThen
       (drawTargetMoire (nadd (topLeftX frameRect) rad) (nadd (topLeftY frameRect) rad)
          rad frameRect c)
       (drawTargetMoire (nsub (nadd (topLeftX frameRect) (width frameRect)) rad)
          (nadd (topLeftY frameRect) rad) rad frameRect))
       (drawTargetMoire (nadd (topLeftX frameRect) rad)
          (nsub (nadd (topLeftY frameRect) (height frameRect)) rad) rad frameRect))
       (drawTargetMoire (nsub (nadd (topLeftX frameRect) (width frameRect)) rad)
          (nsub (nadd (topLeftY frameRect) (height frameRect)) rad) rad frameRect))"
  by (simp add: drawCornerTargets_def cornerTargetRad_def Let_def)

section \<open>The chess loop\<close>

lemma lineCount_iff:
  assumes "0 < cs"
  shows "k < lineCount cs h \<longleftrightarrow> cs / 2 + real k * cs \<le> h"
proof (cases "cs / 2 \<le> h")
  case True
  then have nn: "0 \<le> (h - cs / 2) / cs"
    using assms by simp
  have "k < lineCount cs h \<longleftrightarrow> int k \<le> \<lfloor>(h - cs / 2) / cs\<rfloor>"
    using True nn by (simp add: lineCount_def) linarith
  also have "\<dots> \<longleftrightarrow> real k \<le> (h - cs / 2) / cs"
    by (simp add: le_floor_iff)
  also have "\<dots> \<longleftrightarrow> cs / 2 + real k * cs \<le> h"
    using assms by (simp add: field_simps)
  finally show ?thesis .
next
  case False
  have "0 \<le> real k * cs"
    using assms by simp
  with False show ?thesis
    by (simp add: lineCount_def)
qed

lemma chessLoop_step:
  "chessLoop rect (Fin cs) (Fin ly) so c =
     (if nle (Fin ly) (height rect) then
        chessLoop rect (Fin cs) (Fin (ly + cs)) (if neq so (Fin cs) then Fin 0 else Fin cs)
          (stroke (lineTo (nadd (topLeftX rect) (width rect)) (Fin ly)
             (moveTo (nadd (topLeftX rect) so) (Fin ly) (beginPath c))))
      else Some (Returns c))"
  by (subst chessLoop.simps) simp

lemma chessLoop_Fin:
  assumes "0 < cs" "height rect = Fin h" "k \<le> lineCount cs h"
  shows "chessLoop rect (Fin cs) (Fin (cs / 2 + real k * cs)) (Fin (if even k then 0 else cs)) c
           = Some (Returns (foldl (\<lambda>c' i. chessLineAt rect cs i c') c [k..<lineCount cs h]))"
  using assms(3)
proof (induction "lineCount cs h - k" arbitrary: k c)
  case 0
  then have "\<not> k < lineCount cs h"
    by simp
  then have "\<not> cs / 2 + real k * cs \<le> h"
    using lineCount_iff [OF assms(1)] by simp
  moreover have "[k..<lineCount cs h] = []"
    using 0 by simp
  ultimately show ?case
    by (subst chessLoop_step) (simp only: assms(2) nle_Fin if_False foldl_Nil)
next
  case (Suc m)
  then have lt: "k < lineCount cs h"
    by simp
  then have le: "cs / 2 + real k * cs \<le> h"
    using lineCount_iff [OF assms(1)] by simp
  have next_y: "cs / 2 + real k * cs + cs = cs / 2 + real (Suc k) * cs"
    by (simp add: algebra_simps)
  have next_off: "(if neq (Fin (if even k then 0 else cs)) (Fin cs) then Fin 0 else Fin cs)
                    = Fin (if even (Suc k) then 0 else cs)"
    using assms(1) by simp
  have line: "stroke (lineTo (nadd (topLeftX rect) (width rect)) (Fin (cs / 2 + real k * cs))
                 (moveTo (nadd (topLeftX rect) (Fin (if even k then 0 else cs)))
                    (Fin (cs / 2 + real k * cs)) (beginPath c)))
              = chessLineAt rect cs k c"
    by (simp add: stroke_def lineTo_def moveTo_def beginPath_def chessLineAt_def linePath_def)
  have "m = lineCount cs h - Suc k" "Suc k \<le> lineCount cs h"
    using Suc.hyps(2) lt by simp_all
  from Suc.hyps(1) [OF this]
  have "chessLoop rect (Fin cs) (Fin (cs / 2 + real (Suc k) * cs))
          (Fin (if even (Suc k) then 0 else cs)) (chessLineAt rect cs k c)
        = Some (Returns (foldl (\<lambda>c' i. chessLineAt rect cs i c') (chessLineAt rect cs k c)
                  [Suc k..<lineCount cs h]))" .
  then show ?case
    apply (subst chessLoop_step)
    apply (simp only: assms(2) nle_Fin le if_True next_y next_off line)
    apply (simp add: upt_conv_Cons [OF lt])
    done
qed

lemma cellSize_cases:
  "nmul (getPPLineWidth v) (Fin 2) = Fin 6 \<or> nmul (getPPLineWidth v) (Fin 2) = Fin 8"
  by (simp add: getPPLineWidth_def)

lemma set_lineWidth_pos: "0 < w \<Longrightarrow> set_lineWidth (Fin w) c = c\<lparr>lineWidth := Fin w\<rparr>"
  by (simp add: set_lineWidth_def)

lemma setLineDash_pair:
  "0 \<le> w \<Longrightarrow> setLineDash [Fin w, Fin w] c = c\<lparr>lineDash := [Fin w, Fin w]\<rparr>"
  by (simp add: setLineDash_def)

lemma setLineDash_Nil: "setLineDash [] c = c\<lparr>lineDash := []\<rparr>"
  by (simp add: setLineDash_def)

lemma foldl_chessLineAt:
  "foldl (\<lambda>c' i. chessLineAt rect cs i c') c ks =
     c\<lparr>path := (if ks = [] then path c else linePath rect cs (last ks)),
       surface := surface c @
         map (\<lambda>k. Stroke (strokeStyle c) (lineWidth c) (lineDash c) (linePath rect cs k)) ks\<rparr>"
  by (induction ks arbitrary: c) (simp_all add: chessLineAt_def)

lemma drawChessMoire_Fin:
  assumes "height rect = Fin h" "nmul (getPPLineWidth (Fin h)) (Fin 2) = Fin cs"
  shows "drawChessMoire rect c = Some (Returns (chessLines rect cs (lineCount cs h) c))"
proof -
  have cs: "cs = 6 \<or> cs = 8"
    using cellSize_cases [of "Fin h"] assms(2) by simp
  then have pos: "0 < cs"
    by auto
  have "drawChessMoire rect c =
          chessLoop rect (Fin cs) (Fin (cs / 2 + real (0::nat) * cs)) (Fin (if even (0::nat) then 0 else cs))
            (c\<lparr>strokeStyle := Color ''#000'', lineWidth := Fin cs, lineDash := [Fin cs, Fin cs]\<rparr>)"
    using pos
    by (simp add: drawChessMoire_def Let_def assms set_strokeStyle_def set_lineWidth_pos
          setLineDash_pair)
  also have "\<dots> = Some (Returns (foldl (\<lambda>c' i. chessLineAt rect cs i c')
                (c\<lparr>strokeStyle := Color ''#000'', lineWidth := Fin cs, lineDash := [Fin cs, Fin cs]\<rparr>)
                [0..<lineCount cs h]))"
    by (rule chessLoop_Fin [OF pos assms(1)]) simp
  also have "foldl (\<lambda>c' i. chessLineAt rect cs i c')
                (c\<lparr>strokeStyle := Color ''#000'', lineWidth := Fin cs, lineDash := [Fin cs, Fin cs]\<rparr>)
                [0..<lineCount cs h] = chessLines rect cs (lineCount cs h) c"
    by (cases "lineCount cs h") (simp_all add: foldl_chessLineAt chessLines_def)
  finally show ?thesis .
qed


lemma chessLoop_same_reads:
  assumes "chessLoop r1 cs ly so c = Some out"
    and "topLeftX r2 = topLeftX r1" "width r2 = width r1" "height r2 = height r1"
  shows "chessLoop r2 cs ly so c = Some out"
proof -
  let ?P = "\<lambda>rect cellSize lineY startOffset c out.
              \<forall>r2 :: rect. topLeftX r2 = topLeftX rect \<and> width r2 = width rect
                \<and> height r2 = height rect
                \<longrightarrow> chessLoop r2 cellSize lineY startOffset c = Some out"
  have "?P r1 cs ly so c out"
  proof (rule chessLoop.raw_induct [where P = ?P, OF _ assms(1)], intro allI impI)
    fix f :: "rect \<Rightarrow> number \<Rightarrow> number \<Rightarrow> number \<Rightarrow> ctx \<Rightarrow> outcome option"
    fix rect cellSize lineY startOffset c out and r2 :: rect
    assume IH: "\<And>rect cellSize lineY startOffset c out.
                  f rect cellSize lineY startOffset c = Some out
                    \<Longrightarrow> ?P rect cellSize lineY startOffset c out"
    assume body: "(if nle lineY (height rect)
      then f rect cellSize (nadd lineY cellSize)
            (if neq startOffset cellSize then Fin 0 else cellSize)
            (stroke
              (lineTo (nadd (topLeftX rect) (width rect)) lineY
                (moveTo (nadd (topLeftX rect) startOffset) lineY
                  (beginPath c))))
      else Some (Returns c)) = Some out"
    assume same: "topLeftX r2 = topLeftX rect \<and> width r2 = width rect
                    \<and> height r2 = height rect"
    show "chessLoop r2 cellSize lineY startOffset c = Some out"
    proof (cases "nle lineY (height rect)")
      case True
      with body have "f rect cellSize (nadd lineY cellSize)
          (if neq startOffset cellSize then Fin 0 else cellSize)
          (stroke (lineTo (nadd (topLeftX rect) (width rect)) lineY
             (moveTo (nadd (topLeftX rect) startOffset) lineY (beginPath c)))) = Some out"
        by simp
      from IH [OF this] same have "chessLoop r2 cellSize (nadd lineY cellSize)
          (if neq startOffset cellSize then Fin 0 else cellSize)
          (stroke (lineTo (nadd (topLeftX r2) (width r2)) lineY
             (moveTo (nadd (topLeftX r2) startOffset) lineY (beginPath c)))) = Some out"
        by simp
      with same True show ?thesis
        by (subst chessLoop.simps) simp
    next
      case False
      with body same show ?thesis
        by (subst chessLoop.simps) simp
    qed
  qed
  with assms(2-4) show ?thesis
    by blast
qed

lemma chessLoop_cong_reads:
  assumes "topLeftX r2 = topLeftX r1" "width r2 = width r1" "height r2 = height r1"
  shows "chessLoop r2 cs ly so c = chessLoop r1 cs ly so c"
proof (cases "chessLoop r1 cs ly so c")
  case None
  show ?thesis
  proof (cases "chessLoop r2 cs ly so c")
    case None
    with \<open>chessLoop r1 cs ly so c = None\<close> show ?thesis
      by simp
  next
    case (Some out)
    from chessLoop_same_reads [OF this] assms have "chessLoop r1 cs ly so c = Some out"
      by simp
    with None show ?thesis
      by simp
  qed
next
  case (Some out)
  from chessLoop_same_reads [OF this assms] Some show ?thesis
    by simp
qed

lemma drawChessMoire_topLeftY:
  "drawChessMoire (rect\<lparr>topLeftY := ty'\<rparr>) c = drawChessMoire rect c"
  unfolding drawChessMoire_def Let_def
  by (simp add: chessLoop_cong_reads [of "rect\<lparr>topLeftY := ty'\<rparr>" rect])

lemma drawChessMoire_strokes:
  "\<exists>cs n. nmul (getPPLineWidth (Fin h)) (Fin 2) = Fin cs \<and> 0 < cs
      \<and> (\<forall>k. k < n \<longleftrightarrow> cs / 2 + real k * cs \<le> h)
      \<and> (\<forall>ty c. \<exists>c'.
            drawChessMoire \<lparr>topLeftX = tx, topLeftY = ty, width = w, height = Fin h\<rparr> c
              = Some (Returns c')
            \<and> lineWidth c' = Fin cs \<and> lineDash c' = [Fin cs, Fin cs]
            \<and> surface c' = surface c @
                map (\<lambda>k. Stroke (Color ''#000'') (Fin cs) [Fin cs, Fin cs]
                      [MoveTo (nadd tx (Fin (if even k then 0 else cs))) (Fin (cs / 2 + real k * cs)),
                       LineTo (nadd tx w) (Fin (cs / 2 + real k * cs))]) [0..<n])"
proof -
  obtain cs where cs: "nmul (getPPLineWidth (Fin h)) (Fin 2) = Fin cs" "cs = 6 \<or> cs = 8"
    using cellSize_cases [of "Fin h"] by auto
  then have pos: "0 < cs"
    by auto
  have "drawChessMoire \<lparr>topLeftX = tx, topLeftY = ty, width = w, height = Fin h\<rparr> c
          = Some (Returns (chessLines \<lparr>topLeftX = tx, topLeftY = ty, width = w, height = Fin h\<rparr>
                     cs (lineCount cs h) c))" for ty c
    by (rule drawChessMoire_Fin [OF _ cs(1)]) simp
  then show ?thesis
    using cs(1) pos lineCount_iff [OF pos, of _ h]
    by (intro exI [of _ cs] exI [of _ "lineCount cs h"])
       (simp add: chessLines_def linePath_def)
qed


lemma cellSize_20: "nmul (getPPLineWidth (Fin 20)) (Fin 2) = Fin 8"
  using getPPLineWidth_int [of 20] by simp

lemma upt_3: "[0..<3] = [0, Suc 0, 2]"
  by (simp add: numeral_3_eq_3 numeral_2_eq_2)

section \<open>The whole table\<close>

lemma paintRings_append:
  "paintRings rect (gs @ hs) c = paintRings rect hs (paintRings rect gs c)"
  by (simp add: paintRings_def)

lemma paintRings_eq:
  "paintRings rect gs c =
     c\<lparr>fillStyle := (if gs = [] then fillStyle c else Gradient (ringStops (last gs))),
       surface := surface c @
         map (\<lambda>g. FillRect (Gradient (ringStops g))
                (topLeftX rect) (topLeftY rect) (width rect) (height rect)) gs\<rparr>"
proof (induction gs arbitrary: c)
  case Nil
  then show ?case
    by (simp add: paintRings_def)
next
  case (Cons g gs)
  show ?case
    unfolding paintRings_Cons Cons.IH
    by (simp add: paintRing_def fillRect_def set_fillStyle_def)
qed

lemma drawTargetMoire_total:
  assumes "(isFinite x \<and> isFinite y \<and> isFinite r) \<or> r = NaN"
  shows "\<exists>gs. \<forall>c. drawTargetMoire x y r rect c = Some (Returns (paintRings rect gs c))"
proof (cases "r = NaN")
  case True
  then show ?thesis
    by (intro exI [of _ "[]"]) (simp add: drawTargetMoire_NaN paintRings_def)
next
  case False
  with assms obtain x' y' r' where "x = Fin x'" "y = Fin y'" "r = Fin r'"
    by (cases x; cases y; cases r) auto
  then show ?thesis
    using drawTargetMoire_Fin [of x' y' r' rect] by auto
qed

lemma finOrNaN_nasin [simp]: "finOrNaN (nasin v)"
  by (cases v) auto

lemma finOrNaN_nsin [simp]: "finOrNaN (nsin v)"
  by (cases v) auto

lemma finOrNaN_nadd [simp]: "finOrNaN a \<Longrightarrow> finOrNaN b \<Longrightarrow> finOrNaN (nadd a b)"
  by (cases a; cases b) auto

lemma finOrNaN_nsub [simp]: "finOrNaN a \<Longrightarrow> finOrNaN b \<Longrightarrow> finOrNaN (nsub a b)"
  by (cases a; cases b) (auto simp: nsub_def)

lemma finOrNaN_nmul [simp]: "finOrNaN a \<Longrightarrow> finOrNaN b \<Longrightarrow> finOrNaN (nmul a b)"
  by (cases a; cases b) auto

lemma finOrNaN_half [simp]: "finOrNaN a \<Longrightarrow> finOrNaN (ndiv a (Fin 2))"
  by (cases a) auto

lemma finOrNaN_cases: "finOrNaN v \<Longrightarrow> v = NaN \<or> (\<exists>r. v = Fin r)"
  by (cases v) auto

lemma cornerTargetRad_cases:
  assumes "width rect = Fin w" "height rect = Fin h"
  shows "cornerTargetRad rect = NaN \<or> (\<exists>r. cornerTargetRad rect = Fin r)"
proof -
  have "finOrNaN (cornerTargetRad rect)"
    unfolding cornerTargetRad_def getCornerTargetSize_numbers assms
    by (intro finOrNaN_half finOrNaN_nsub finOrNaN_nmul finOrNaN_nsin finOrNaN_nasin) simp_all
  then show ?thesis
    by (rule finOrNaN_cases)
qed

lemma drawCenterTarget_total:
  assumes "topLeftX rect = Fin tx" "width rect = Fin w" "height rect = Fin h"
  shows "\<exists>gs. \<forall>c. drawCenterTarget rect c = Some (Returns (paintRings rect gs c))"
  unfolding drawCenterTarget_def
  by (rule drawTargetMoire_total) (simp add: assms)

lemma andThen_Returns [simp]: "andThen (Some (Returns c)) f = f c"
  by (simp add: andThen_def)

lemma drawCornerTargets_total:
  assumes "topLeftX rect = Fin tx" "topLeftY rect = Fin ty" "width rect = Fin w"
    "height rect = Fin h"
  shows "\<exists>gs. \<forall>c. drawCornerTargets rect c = Some (Returns (paintRings rect gs c))"
proof -
  define rad where "rad = cornerTargetRad rect"
  have fin: "(isFinite (nadd (Fin a) rad) \<and> isFinite (nadd (Fin b) rad) \<and> isFinite rad)
               \<or> rad = NaN"
            "(isFinite (nsub (Fin a) rad) \<and> isFinite (nadd (Fin b) rad) \<and> isFinite rad)
               \<or> rad = NaN"
            "(isFinite (nadd (Fin a) rad) \<and> isFinite (nsub (Fin b) rad) \<and> isFinite rad)
               \<or> rad = NaN"
            "(isFinite (nsub (Fin a) rad) \<and> isFinite (nsub (Fin b) rad) \<and> isFinite rad)
               \<or> rad = NaN" for a b
    using cornerTargetRad_cases [OF assms(3,4)] unfolding rad_def [symmetric] by auto
  obtain g1 where g1: "\<And>c. drawTargetMoire (nadd (Fin tx) rad) (nadd (Fin ty) rad) rad rect c
                           = Some (Returns (paintRings rect g1 c))"
    using drawTargetMoire_total [OF fin(1)] by blast
  obtain g2 where g2: "\<And>c. drawTargetMoire (nsub (nadd (Fin tx) (Fin w)) rad) (nadd (Fin ty) rad)
                           rad rect c = Some (Returns (paintRings rect g2 c))"
    using drawTargetMoire_total [OF fin(2) [of "tx + w" ty], of rect] by auto
  obtain g3 where g3: "\<And>c. drawTargetMoire (nadd (Fin tx) rad) (nsub (nadd (Fin ty) (Fin h)) rad)
                           rad rect c = Some (Returns (paintRings rect g3 c))"
    using drawTargetMoire_total [OF fin(3) [of tx "ty + h"], of rect] by auto
  obtain g4 where g4: "\<And>c. drawTargetMoire (nsub (nadd (Fin tx) (Fin w)) rad)
                           (nsub (nadd (Fin ty) (Fin h)) rad)
                           rad rect c = Some (Returns (paintRings rect g4 c))"
    using drawTargetMoire_total [OF fin(4) [of "tx + w" "ty + h"], of rect] by auto
  show ?thesis
    by (intro exI [of _ "g1 @ g2 @ g3 @ g4"])
       (simp only: drawCornerTargets_def rad_def [symmetric] assms g1 g2 g3 g4
          andThen_Returns paintRings_append simp_thms)
qed


lemma drawLine_eq:
  "drawLine a b c d ctx' =
     ctx'\<lparr>strokeStyle := Color ''#000'', lineDash := [], path := [MoveTo a b, LineTo c d],
          surface := surface ctx' @
            [Stroke (Color ''#000'') (lineWidth ctx') [] [MoveTo a b, LineTo c d]]\<rparr>"
  by (simp add: drawLine_def stroke_def lineTo_def moveTo_def beginPath_def setLineDash_def
        set_strokeStyle_def)

lemma set_lineWidth_pp: "set_lineWidth (getPPLineWidth v) c = c\<lparr>lineWidth := getPPLineWidth v\<rparr>"
  by (simp add: set_lineWidth_def getPPLineWidth_def)

lemma clearRect_whole:
  "clearRect (Fin 0) (Fin 0) (Fin (real (canvas_width c))) (Fin (real (canvas_height c))) c
     = c\<lparr>surface := []\<rparr>"
  by (simp add: clearRect_def)

lemma drawTable_returns:
  "\<exists>cs n gs. \<forall>c. canvas_width c = W \<and> canvas_height c = H
       \<longrightarrow> drawTable c = Some (Returns (rendered W H cs n gs c))"
proof -
  let ?fr = "frameLayout (Fin (real W)) (Fin (real H))"
  have fr: "topLeftX ?fr = Fin (of_int \<lfloor>(real W - of_int \<lfloor>real H * 4 / 3\<rfloor>) / 2\<rfloor>)"
    "topLeftY ?fr = Fin 0" "width ?fr = Fin (of_int \<lfloor>real H * 4 / 3\<rfloor>)"
    "height ?fr = Fin (real H)"
    by (simp_all add: frameLayout_Fin)
  obtain cs where cs: "nmul (getPPLineWidth (Fin (real H))) (Fin 2) = Fin cs"
    using cellSize_cases [of "Fin (real H)"] by auto
  have chess: "drawChessMoire ?fr c = Some (Returns (chessLines ?fr cs (lineCount cs (real H)) c))"
    for c
    by (rule drawChessMoire_Fin [OF fr(4) cs])
  obtain g0 where g0: "\<And>c. drawCenterTarget ?fr c = Some (Returns (paintRings ?fr g0 c))"
    using drawCenterTarget_total [OF fr(1,3,4)] by blast
  obtain g1 where g1: "\<And>c. drawCornerTargets ?fr c = Some (Returns (paintRings ?fr g1 c))"
    using drawCornerTargets_total [OF fr] by blast
  show ?thesis
    by (intro exI [of _ cs] exI [of _ "lineCount cs (real H)"] exI [of _ "g0 @ g1"])
       (simp add: drawTable_def rendered_def Let_def chess g0 g1 paintRings_append)
qed

lemma rendered_fresh:
  assumes "canvas_width c = W" "canvas_height c = H"
  shows "rendered W H cs n gs c = rendered W H cs n gs (freshCtx W H)"
proof -
  have a: "clearRect (Fin 0) (Fin 0) (Fin (real W)) (Fin (real H)) c = c\<lparr>surface := []\<rparr>"
    using clearRect_whole [of c] assms by simp
  have b: "clearRect (Fin 0) (Fin 0) (Fin (real W)) (Fin (real H)) (freshCtx W H)
             = (freshCtx W H)\<lparr>surface := []\<rparr>"
    using clearRect_whole [of "freshCtx W H"] by (simp add: freshCtx_def)
  show ?thesis
    unfolding rendered_def Let_def a b
    using assms
    by (cases c)
       (simp add: drawGuideLines_def Let_def drawLine_eq set_lineWidth_pp paintRings_eq
          chessLines_def drawRect_def fillRect_def set_fillStyle_def freshCtx_def)
qed

lemma rendered_size:
  "canvas_width (rendered W H cs n gs c) = canvas_width c"
  "canvas_height (rendered W H cs n gs c) = canvas_height c"
  by (simp_all add: rendered_def Let_def drawGuideLines_def drawLine_eq set_lineWidth_def
        paintRings_eq chessLines_def drawRect_def fillRect_def set_fillStyle_def clearRect_def)


lemma rendered_fills:
  assumes "canvas_width c = W" "canvas_height c = H"
    and "FillRect s x y w h \<in> set (surface (rendered W H cs n gs c))"
  shows "(s = Color ''#000'' \<and> x = Fin 0 \<and> y = Fin 0 \<and> w = Fin (real W) \<and> h = Fin (real H))
       \<or> (x = topLeftX (frameLayout (Fin (real W)) (Fin (real H)))
          \<and> y = topLeftY (frameLayout (Fin (real W)) (Fin (real H)))
          \<and> w = width (frameLayout (Fin (real W)) (Fin (real H)))
          \<and> h = height (frameLayout (Fin (real W)) (Fin (real H))))"
proof -
  have a: "clearRect (Fin 0) (Fin 0) (Fin (real W)) (Fin (real H)) c = c\<lparr>surface := []\<rparr>"
    using clearRect_whole [of c] assms by simp
  show ?thesis
    using assms(3) unfolding rendered_def Let_def a
    by (auto simp add: drawGuideLines_def Let_def drawLine_eq set_lineWidth_pp paintRings_eq
          chessLines_def drawRect_def fillRect_def set_fillStyle_def Rect_def)
qed

lemma rendered_frame_fill:
  assumes "canvas_width c = W" "canvas_height c = H"
  shows "FillRect (Color ''#fff'')
           (topLeftX (frameLayout (Fin (real W)) (Fin (real H))))
           (topLeftY (frameLayout (Fin (real W)) (Fin (real H))))
           (width (frameLayout (Fin (real W)) (Fin (real H))))
           (height (frameLayout (Fin (real W)) (Fin (real H))))
         \<in> set (surface (rendered W H cs n gs c))"
proof -
  have a: "clearRect (Fin 0) (Fin 0) (Fin (real W)) (Fin (real H)) c = c\<lparr>surface := []\<rparr>"
    using clearRect_whole [of c] assms by simp
  show ?thesis
    unfolding rendered_def Let_def a
    by (simp add: drawGuideLines_def Let_def drawLine_eq set_lineWidth_pp paintRings_eq
          chessLines_def drawRect_def fillRect_def set_fillStyle_def Rect_def)
qed

section \<open>The line width resolver\<close>

text \<open>
  Claim C9. For every integer \<open>v \<ge> 0\<close>, \<^verbatim>\<open>getPPLineWidth\<close> returns 3 when \<open>v\<close> is odd
  and 4 when \<open>v\<close> is even.
\<close>

theorem getPPLineWidth_parity:
  assumes "0 \<le> v"
  shows "(odd v \<longrightarrow> getPPLineWidth (Fin (of_int v)) = Fin 3)
       \<and> (even v \<longrightarrow> getPPLineWidth (Fin (of_int v)) = Fin 4)"
  by (simp add: getPPLineWidth_int)

theorem getPPLineWidth_parity_witness:
  "(0::int) \<le> 901 \<and> getPPLineWidth (Fin (of_int 901)) = Fin 3
   \<and> (0::int) \<le> 900 \<and> getPPLineWidth (Fin (of_int 900)) = Fin 4"
  using getPPLineWidth_parity [of 901] getPPLineWidth_parity [of 900] by simp

section \<open>The frame layout\<close>

text \<open>
  Claim C1. For every surface size \<open>(W, H)\<close> with \<open>H > 0\<close> the frame rectangle of
  \<^verbatim>\<open>drawTable\<close> has height \<open>H\<close>, width \<open>\<lfloor>H * 4 / 3\<rfloor>\<close>, \<open>topLeftY = 0\<close> and
  \<open>topLeftX = \<lfloor>(W - width) / 2\<rfloor>\<close>. On a 1200 by 900 surface the frame is the whole
  surface, and \<^verbatim>\<open>drawTable\<close> calls \<^verbatim>\<open>drawTargetMoire\<close> for the center target at
  \<open>(600, 450)\<close> with the outer radius 450.
\<close>

theorem frameLayout_centered:
  assumes "0 < H"
  shows "frameLayout (Fin (real W)) (Fin (real H)) =
           \<lparr>topLeftX = Fin (of_int \<lfloor>(real W - of_int \<lfloor>real H * 4 / 3\<rfloor>) / 2\<rfloor>),
            topLeftY = Fin 0,
            width = Fin (of_int \<lfloor>real H * 4 / 3\<rfloor>),
            height = Fin (real H)\<rparr>
       \<and> frameLayout (Fin 1200) (Fin 900) =
           \<lparr>topLeftX = Fin 0, topLeftY = Fin 0, width = Fin 1200, height = Fin 900\<rparr>
       \<and> (canvas_width c = 1200 \<and> canvas_height c = 900 \<longrightarrow>
            drawTable c =
              andThen (andThen (andThen
                (drawChessMoire (Rect (Fin 0) (Fin 0) (Fin 1200) (Fin 900))
                   (drawRect ''#fff'' (Rect (Fin 0) (Fin 0) (Fin 1200) (Fin 900))
                      (drawRect ''#000'' (Rect (Fin 0) (Fin 0) (Fin 1200) (Fin 900))
                         (clearRect (Fin 0) (Fin 0) (Fin 1200) (Fin 900) c))))
                (drawTargetMoire (Fin 600) (Fin 450) (Fin 450)
                   (Rect (Fin 0) (Fin 0) (Fin 1200) (Fin 900))))
                (drawCornerTargets (Rect (Fin 0) (Fin 0) (Fin 1200) (Fin 900))))
                (\<lambda>c'. Some (Returns (drawGuideLines (Rect (Fin 0) (Fin 0) (Fin 1200) (Fin 900))
                                        (Fin 1200) c'))))"
  using frameLayout_Fin [of "real W" "real H"] frameLayout_1200_900 drawTable_1200_900 [of c]
  by (simp add: Rect_def)

theorem frameLayout_centered_witness:
  "(0::nat) < 900
   \<and> frameLayout (Fin (real (1200::nat))) (Fin (real (900::nat))) =
       \<lparr>topLeftX = Fin 0, topLeftY = Fin 0, width = Fin 1200, height = Fin 900\<rparr>
   \<and> canvas_width (freshCtx 1200 900) = 1200 \<and> canvas_height (freshCtx 1200 900) = 900
   \<and> drawTable (freshCtx 1200 900) =
              andThen (andThen (andThen
                (drawChessMoire (Rect (Fin 0) (Fin 0) (Fin 1200) (Fin 900))
                   (drawRect ''#fff'' (Rect (Fin 0) (Fin 0) (Fin 1200) (Fin 900))
                      (drawRect ''#000'' (Rect (Fin 0) (Fin 0) (Fin 1200) (Fin 900))
                         (clearRect (Fin 0) (Fin 0) (Fin 1200) (Fin 900) (freshCtx 1200 900)))))
                (drawTargetMoire (Fin 600) (Fin 450) (Fin 450)
                   (Rect (Fin 0) (Fin 0) (Fin 1200) (Fin 900))))
                (drawCornerTargets (Rect (Fin 0) (Fin 0) (Fin 1200) (Fin 900))))
                (\<lambda>c'. Some (Returns (drawGuideLines (Rect (Fin 0) (Fin 0) (Fin 1200) (Fin 900))
                                        (Fin 1200) c')))"
  using frameLayout_centered [of 900 1200 "freshCtx 1200 900"]
  by (simp add: freshCtx_def)

section \<open>The ring target renderer\<close>







section \<open>The corner targets\<close>

text \<open>
  Claim C2. For every rect with half-width \<open>a = width / 2\<close> and half-height
  \<open>b = height / 2 > 0\<close>, \<^verbatim>\<open>getCornerTargetSize\<close> returns the closed form
  \<open>b - b \<sqdot> sin y\<close> with \<open>y = \<pi>/4 - asin (-(b - a) / b)\<close>: as an equation of Numbers for
  every width, and as the real number of the specification wherever the arc sine is
  defined (\<open>0 \<le> width \<le> 2 \<sqdot> height\<close>). For a square rect \<open>y = \<pi>/4\<close> and the result is
  \<open>b - b \<sqdot> sin (\<pi>/4)\<close>. Half of the returned diameter is the outer radius that
  \<^verbatim>\<open>drawTable\<close> passes for each of the four corner targets.
\<close>

theorem getCornerTargetSize_closed_form:
  assumes "0 < h"
  shows "getCornerTargetSize \<lparr>topLeftX = tx, topLeftY = ty, width = Fin w, height = Fin h\<rparr> =
           nsub (Fin (h / 2)) (nmul (Fin (h / 2))
             (nsin (nsub (Fin (pi / 4))
                (nasin (ndiv (nneg (nsub (Fin (h / 2)) (Fin (w / 2)))) (Fin (h / 2)))))))
       \<and> (0 \<le> w \<and> w \<le> 2 * h \<longrightarrow>
            getCornerTargetSize \<lparr>topLeftX = tx, topLeftY = ty, width = Fin w, height = Fin h\<rparr>
              = Fin (specCornerDiameter (w / 2) (h / 2)))
       \<and> pi / 4 - arcsin (- (h / 2 - h / 2) / (h / 2)) = pi / 4
       \<and> getCornerTargetSize \<lparr>topLeftX = tx, topLeftY = ty, width = Fin h, height = Fin h\<rparr>
            = Fin (h / 2 - h / 2 * sin (pi / 4))
       \<and> drawCornerTargets frameRect c =
           (let rad = ndiv (getCornerTargetSize frameRect) (Fin 2) in
            andThen (andThen (andThen
             (drawTargetMoire (nadd (topLeftX frameRect) rad) (nadd (topLeftY frameRect) rad)
                rad frameRect c)
             (drawTargetMoire (nsub (nadd (topLeftX frameRect) (width frameRect)) rad)
                (nadd (topLeftY frameRect) rad) rad frameRect))
             (drawTargetMoire (nadd (topLeftX frameRect) rad)
                (nsub (nadd (topLeftY frameRect) (height frameRect)) rad) rad frameRect))
             (drawTargetMoire (nsub (nadd (topLeftX frameRect) (width frameRect)) rad)
                (nsub (nadd (topLeftY frameRect) (height frameRect)) rad) rad frameRect))"
proof -
  have "0 \<le> w \<and> w \<le> 2 * h \<longrightarrow>
            getCornerTargetSize \<lparr>topLeftX = tx, topLeftY = ty, width = Fin w, height = Fin h\<rparr>
              = Fin (specCornerDiameter (w / 2) (h / 2))"
    using assms getCornerTargetSize_Fin [of h w tx ty]
    by (simp add: specCornerDiameter_def Let_def)
  moreover have "pi / 4 - arcsin (- (h / 2 - h / 2) / (h / 2)) = pi / 4"
    by simp
  ultimately show ?thesis
    using getCornerTargetSize_numbers
            [of "\<lparr>topLeftX = tx, topLeftY = ty, width = Fin w, height = Fin h\<rparr>"]
          getCornerTargetSize_square [OF assms, of tx ty]
          drawCornerTargets_radius [of frameRect c] assms
    by simp
qed

theorem getCornerTargetSize_closed_form_witness:
  "(0::real) < 600 \<and> (0::real) \<le> 800 \<and> (800::real) \<le> 2 * 600
   \<and> getCornerTargetSize \<lparr>topLeftX = Fin 0, topLeftY = Fin 0, width = Fin 800, height = Fin 600\<rparr>
        = Fin (specCornerDiameter (800 / 2) (600 / 2))
   \<and> getCornerTargetSize \<lparr>topLeftX = Fin 0, topLeftY = Fin 0, width = Fin 600, height = Fin 600\<rparr>
        = Fin (600 / 2 - 600 / 2 * sin (pi / 4))"
proof -
  have h: "(0::real) < 600"
    by simp
  have w: "(0::real) \<le> 800 \<and> (800::real) \<le> 2 * 600"
    by simp
  show ?thesis
    using h w getCornerTargetSize_closed_form
          [OF h, of "Fin 0" "Fin 0" 800 "Rect (Fin 0) (Fin 0) (Fin 800) (Fin 600)"
             "freshCtx 800 600"]
    by blast
qed

text \<open>
  Claim C5. For the frame rect of every surface with \<open>H > 0\<close>, the corner target radius
  (half of the diameter that \<^verbatim>\<open>getCornerTargetSize\<close> returns) is a positive real that
  does not exceed half of the shorter dimension of the frame. For a rect 800 wide and 600
  high (\<open>a = 400\<close>, \<open>b = 300\<close>) the radius is positive and less than \<open>b\<close>.
\<close>

theorem cornerTargetRad_within_frame:
  assumes "0 < H"
  shows "(\<exists>rad. cornerTargetRad (frameLayout (Fin (real W)) (Fin (real H))) = Fin rad
                \<and> 0 < rad \<and> rad \<le> min (of_int \<lfloor>real H * 4 / 3\<rfloor>) (real H) / 2)
       \<and> (\<exists>rad. cornerTargetRad
                   \<lparr>topLeftX = tx, topLeftY = ty, width = Fin 800, height = Fin 600\<rparr> = Fin rad
                \<and> 0 < rad \<and> rad < 600 / 2)"
proof
  have H: "0 < real H"
    using assms by simp
  obtain rad where rad:
    "cornerTargetRad (frameLayout (Fin (real W)) (Fin (real H))) = Fin rad"
    "0 < rad" "rad < real H / 4"
    using cornerTargetRad_bounds [OF H frame_width_bounds [of H]]
    unfolding frameLayout_Fin by blast
  have "rad \<le> min (of_int \<lfloor>real H * 4 / 3\<rfloor>) (real H) / 2"
    using rad(3) H frame_width_bounds(1) [of H] by (simp add: min_def)
  with rad show "\<exists>rad. cornerTargetRad (frameLayout (Fin (real W)) (Fin (real H))) = Fin rad
                \<and> 0 < rad \<and> rad \<le> min (of_int \<lfloor>real H * 4 / 3\<rfloor>) (real H) / 2"
    by blast
next
  obtain rad where
    "cornerTargetRad \<lparr>topLeftX = tx, topLeftY = ty, width = Fin 800, height = Fin 600\<rparr> = Fin rad"
    "0 < rad" "rad < 600 / 4"
    using cornerTargetRad_bounds [of 600 800 tx ty] by auto
  then show "\<exists>rad. cornerTargetRad
                   \<lparr>topLeftX = tx, topLeftY = ty, width = Fin 800, height = Fin 600\<rparr> = Fin rad
                \<and> 0 < rad \<and> rad < 600 / 2"
    by (intro exI [of _ rad]) simp
qed

theorem cornerTargetRad_within_frame_witness:
  "(0::nat) < 600
   \<and> frameLayout (Fin (real (800::nat))) (Fin (real (600::nat)))
       = \<lparr>topLeftX = Fin 0, topLeftY = Fin 0, width = Fin 800, height = Fin 600\<rparr>
   \<and> (\<exists>rad. cornerTargetRad (frameLayout (Fin (real (800::nat))) (Fin (real (600::nat)))) = Fin rad
          \<and> 0 < rad \<and> rad \<le> min 800 600 / 2)"
proof -
  have "frameLayout (Fin (real (800::nat))) (Fin (real (600::nat)))
       = \<lparr>topLeftX = Fin 0, topLeftY = Fin 0, width = Fin 800, height = Fin 600\<rparr>"
    by (simp add: frameLayout_Fin)
  moreover have "\<lfloor>real (600::nat) * 4 / 3\<rfloor> = 800"
    by simp
  ultimately show ?thesis
    using cornerTargetRad_within_frame [of 600 800 "Fin 0" "Fin 0"] by simp
qed

section \<open>The line moire renderer\<close>

text \<open>
  Claim C6. For every rect of a finite height, \<^verbatim>\<open>drawChessMoire\<close> returns; with
  \<open>cellSize = getPPLineWidth(rect.height) \<times> 2\<close> it leaves the line width \<open>cellSize\<close> and
  the dash list \<open>[cellSize, cellSize]\<close>, and it has stroked, with that width and that dash
  list, the lines \<open>k = 0, \<dots>, n - 1\<close>: line \<open>k\<close> runs at \<open>y = cellSize / 2 + k \<sqdot> cellSize\<close>
  from \<open>topLeftX + 0\<close> when \<open>k\<close> is even and from \<open>topLeftX + cellSize\<close> when \<open>k\<close> is odd, and
  \<open>k < n\<close> exactly when that \<open>y\<close> does not exceed the height.
\<close>

theorem drawChessMoire_lines:
  "\<exists>cs n. nmul (getPPLineWidth (Fin h)) (Fin 2) = Fin cs
      \<and> (\<forall>k. k < n \<longleftrightarrow> cs / 2 + real k * cs \<le> h)
      \<and> (\<forall>c. \<exists>c'.
            drawChessMoire \<lparr>topLeftX = tx, topLeftY = ty, width = w, height = Fin h\<rparr> c
              = Some (Returns c')
            \<and> lineWidth c' = Fin cs \<and> lineDash c' = [Fin cs, Fin cs]
            \<and> surface c' = surface c @
                map (\<lambda>k. Stroke (Color ''#000'') (Fin cs) [Fin cs, Fin cs]
                      [MoveTo (nadd tx (Fin (if even k then 0 else cs))) (Fin (cs / 2 + real k * cs)),
                       LineTo (nadd tx w) (Fin (cs / 2 + real k * cs))]) [0..<n])"
proof -
  obtain cs n where f: "nmul (getPPLineWidth (Fin h)) (Fin 2) = Fin cs \<and> 0 < cs
      \<and> (\<forall>k. k < n \<longleftrightarrow> cs / 2 + real k * cs \<le> h)
      \<and> (\<forall>ty c. \<exists>c'.
            drawChessMoire \<lparr>topLeftX = tx, topLeftY = ty, width = w, height = Fin h\<rparr> c
              = Some (Returns c')
            \<and> lineWidth c' = Fin cs \<and> lineDash c' = [Fin cs, Fin cs]
            \<and> surface c' = surface c @
                map (\<lambda>k. Stroke (Color ''#000'') (Fin cs) [Fin cs, Fin cs]
                      [MoveTo (nadd tx (Fin (if even k then 0 else cs))) (Fin (cs / 2 + real k * cs)),
                       LineTo (nadd tx w) (Fin (cs / 2 + real k * cs))]) [0..<n])"
    using drawChessMoire_strokes [of h tx w] by (elim exE) (rule that)
  show ?thesis
    by (rule exI [of _ cs], rule exI [of _ n]) (simp add: f)
qed

theorem drawChessMoire_lines_witness:
  "\<exists>c'. drawChessMoire \<lparr>topLeftX = Fin 10, topLeftY = Fin 100, width = Fin 50, height = Fin 20\<rparr>
           (freshCtx 100 200) = Some (Returns c')
      \<and> lineWidth c' = Fin 8 \<and> lineDash c' = [Fin 8, Fin 8]
      \<and> surface c' =
          [Stroke (Color ''#000'') (Fin 8) [Fin 8, Fin 8]
             [MoveTo (Fin 10) (Fin 4), LineTo (Fin 60) (Fin 4)],
           Stroke (Color ''#000'') (Fin 8) [Fin 8, Fin 8]
             [MoveTo (Fin 18) (Fin 12), LineTo (Fin 60) (Fin 12)],
           Stroke (Color ''#000'') (Fin 8) [Fin 8, Fin 8]
             [MoveTo (Fin 10) (Fin 20), LineTo (Fin 60) (Fin 20)]]"
proof -
  obtain cs n where f: "nmul (getPPLineWidth (Fin 20)) (Fin 2) = Fin cs
      \<and> (\<forall>k. k < n \<longleftrightarrow> cs / 2 + real k * cs \<le> 20)
      \<and> (\<forall>c. \<exists>c'.
            drawChessMoire \<lparr>topLeftX = Fin 10, topLeftY = Fin 100, width = Fin 50, height = Fin 20\<rparr> c
              = Some (Returns c')
            \<and> lineWidth c' = Fin cs \<and> lineDash c' = [Fin cs, Fin cs]
            \<and> surface c' = surface c @
                map (\<lambda>k. Stroke (Color ''#000'') (Fin cs) [Fin cs, Fin cs]
                      [MoveTo (nadd (Fin 10) (Fin (if even k then 0 else cs)))
                         (Fin (cs / 2 + real k * cs)),
                       LineTo (nadd (Fin 10) (Fin 50)) (Fin (cs / 2 + real k * cs))]) [0..<n])"
    using drawChessMoire_lines [of 20 "Fin 10" "Fin 100" "Fin 50"] by (elim exE) (rule that)
  have cs8: "cs = 8"
    using f cellSize_20 by simp
  have "(2 < n) = (cs / 2 + real 2 * cs \<le> 20)" "(3 < n) = (cs / 2 + real 3 * cs \<le> 20)"
    using f by simp_all
  then have n3: "n = 3"
    by (simp add: cs8)
  from f obtain c' where c': "drawChessMoire
         \<lparr>topLeftX = Fin 10, topLeftY = Fin 100, width = Fin 50, height = Fin 20\<rparr>
         (freshCtx 100 200) = Some (Returns c')
            \<and> lineWidth c' = Fin cs \<and> lineDash c' = [Fin cs, Fin cs]
            \<and> surface c' = surface (freshCtx 100 200) @
                map (\<lambda>k. Stroke (Color ''#000'') (Fin cs) [Fin cs, Fin cs]
                      [MoveTo (nadd (Fin 10) (Fin (if even k then 0 else cs)))
                         (Fin (cs / 2 + real k * cs)),
                       LineTo (nadd (Fin 10) (Fin 50)) (Fin (cs / 2 + real k * cs))]) [0..<n]"
    by (elim conjE allE [where x = "freshCtx 100 200"] exE) (rule that, simp)
  show ?thesis
    using c' by (intro exI [of _ c']) (simp add: cs8 n3 upt_3 freshCtx_def)
qed


text \<open>
  Claim C10. \<^verbatim>\<open>drawChessMoire\<close> does not read \<open>rect.topLeftY\<close>: changing it changes
  nothing of the call, whatever the rect (also when the call does not return). For a
  finite height the cell size, the number of lines and their coordinates are the same for
  every \<open>topLeftY\<close>: the lines lie at the absolute \<open>y = cellSize / 2 + k \<sqdot> cellSize\<close>,
  between 0 and the height. The frame rect that \<^verbatim>\<open>drawTable\<close> builds has
  \<open>topLeftY = 0\<close>.
\<close>

theorem drawChessMoire_ignores_topLeftY:
  "drawChessMoire (rect\<lparr>topLeftY := ty'\<rparr>) c = drawChessMoire rect c
   \<and> (\<exists>cs n. nmul (getPPLineWidth (Fin h)) (Fin 2) = Fin cs \<and> 0 < cs
        \<and> (\<forall>k. k < n \<longleftrightarrow> cs / 2 + real k * cs \<le> h)
        \<and> (\<forall>ty c. \<exists>c'.
              drawChessMoire \<lparr>topLeftX = tx, topLeftY = ty, width = w, height = Fin h\<rparr> c
                = Some (Returns c')
              \<and> surface c' = surface c @
                  map (\<lambda>k. Stroke (Color ''#000'') (Fin cs) [Fin cs, Fin cs]
                        [MoveTo (nadd tx (Fin (if even k then 0 else cs)))
                           (Fin (cs / 2 + real k * cs)),
                         LineTo (nadd tx w) (Fin (cs / 2 + real k * cs))]) [0..<n]))
   \<and> topLeftY (frameLayout canvasWidth canvasHeight) = Fin 0"
proof -
  obtain cs n where f: "nmul (getPPLineWidth (Fin h)) (Fin 2) = Fin cs \<and> 0 < cs
      \<and> (\<forall>k. k < n \<longleftrightarrow> cs / 2 + real k * cs \<le> h)
      \<and> (\<forall>ty c. \<exists>c'.
            drawChessMoire \<lparr>topLeftX = tx, topLeftY = ty, width = w, height = Fin h\<rparr> c
              = Some (Returns c')
            \<and> lineWidth c' = Fin cs \<and> lineDash c' = [Fin cs, Fin cs]
            \<and> surface c' = surface c @
                map (\<lambda>k. Stroke (Color ''#000'') (Fin cs) [Fin cs, Fin cs]
                      [MoveTo (nadd tx (Fin (if even k then 0 else cs))) (Fin (cs / 2 + real k * cs)),
                       LineTo (nadd tx w) (Fin (cs / 2 + real k * cs))]) [0..<n])"
    using drawChessMoire_strokes [of h tx w] by (elim exE) (rule that)
  have "\<exists>c'. drawChessMoire \<lparr>topLeftX = tx, topLeftY = ty, width = w, height = Fin h\<rparr> c
                = Some (Returns c')
              \<and> surface c' = surface c @
                  map (\<lambda>k. Stroke (Color ''#000'') (Fin cs) [Fin cs, Fin cs]
                        [MoveTo (nadd tx (Fin (if even k then 0 else cs)))
                           (Fin (cs / 2 + real k * cs)),
                         LineTo (nadd tx w) (Fin (cs / 2 + real k * cs))]) [0..<n]" for ty c
  proof -
    from f have "\<forall>ty c. \<exists>c'.
            drawChessMoire \<lparr>topLeftX = tx, topLeftY = ty, width = w, height = Fin h\<rparr> c
              = Some (Returns c')
            \<and> lineWidth c' = Fin cs \<and> lineDash c' = [Fin cs, Fin cs]
            \<and> surface c' = surface c @
                map (\<lambda>k. Stroke (Color ''#000'') (Fin cs) [Fin cs, Fin cs]
                      [MoveTo (nadd tx (Fin (if even k then 0 else cs))) (Fin (cs / 2 + real k * cs)),
                       LineTo (nadd tx w) (Fin (cs / 2 + real k * cs))]) [0..<n]"
      by (elim conjE)
    then have "\<exists>c'.
            drawChessMoire \<lparr>topLeftX = tx, topLeftY = ty, width = w, height = Fin h\<rparr> c
              = Some (Returns c')
            \<and> lineWidth c' = Fin cs \<and> lineDash c' = [Fin cs, Fin cs]
            \<and> surface c' = surface c @
                map (\<lambda>k. Stroke (Color ''#000'') (Fin cs) [Fin cs, Fin cs]
                      [MoveTo (nadd tx (Fin (if even k then 0 else cs))) (Fin (cs / 2 + real k * cs)),
                       LineTo (nadd tx w) (Fin (cs / 2 + real k * cs))]) [0..<n]"
      by simp
    then obtain c' where "drawChessMoire \<lparr>topLeftX = tx, topLeftY = ty, width = w, height = Fin h\<rparr> c
              = Some (Returns c')
            \<and> lineWidth c' = Fin cs \<and> lineDash c' = [Fin cs, Fin cs]
            \<and> surface c' = surface c @
                map (\<lambda>k. Stroke (Color ''#000'') (Fin cs) [Fin cs, Fin cs]
                      [MoveTo (nadd tx (Fin (if even k then 0 else cs))) (Fin (cs / 2 + real k * cs)),
                       LineTo (nadd tx w) (Fin (cs / 2 + real k * cs))]) [0..<n]"
      by (elim exE) (rule that)
    then show ?thesis
      by (intro exI [of _ c']) simp
  qed
  then have "\<exists>cs n. nmul (getPPLineWidth (Fin h)) (Fin 2) = Fin cs \<and> 0 < cs
        \<and> (\<forall>k. k < n \<longleftrightarrow> cs / 2 + real k * cs \<le> h)
        \<and> (\<forall>ty c. \<exists>c'.
              drawChessMoire \<lparr>topLeftX = tx, topLeftY = ty, width = w, height = Fin h\<rparr> c
                = Some (Returns c')
              \<and> surface c' = surface c @
                  map (\<lambda>k. Stroke (Color ''#000'') (Fin cs) [Fin cs, Fin cs]
                        [MoveTo (nadd tx (Fin (if even k then 0 else cs)))
                           (Fin (cs / 2 + real k * cs)),
                         LineTo (nadd tx w) (Fin (cs / 2 + real k * cs))]) [0..<n])"
    using f by (intro exI [of _ cs] exI [of _ n] conjI allI) simp_all
  moreover have "topLeftY (frameLayout canvasWidth canvasHeight) = Fin 0"
    by (simp add: frameLayout_def Rect_def Let_def)
  ultimately show ?thesis
    using drawChessMoire_topLeftY [where rect = rect and ty' = ty' and c = c] by (intro conjI)
qed

theorem drawChessMoire_ignores_topLeftY_witness:
  "drawChessMoire \<lparr>topLeftX = Fin 10, topLeftY = Fin 100, width = Fin 50, height = Fin 20\<rparr>
     (freshCtx 100 200)
   = drawChessMoire \<lparr>topLeftX = Fin 10, topLeftY = Fin 0, width = Fin 50, height = Fin 20\<rparr>
       (freshCtx 100 200)
   \<and> (\<forall>ty. \<exists>c'.
         drawChessMoire \<lparr>topLeftX = Fin 10, topLeftY = ty, width = Fin 50, height = Fin 20\<rparr>
           (freshCtx 100 200) = Some (Returns c')
         \<and> surface c' =
            [Stroke (Color ''#000'') (Fin 8) [Fin 8, Fin 8]
               [MoveTo (Fin 10) (Fin 4), LineTo (Fin 60) (Fin 4)],
             Stroke (Color ''#000'') (Fin 8) [Fin 8, Fin 8]
               [MoveTo (Fin 18) (Fin 12), LineTo (Fin 60) (Fin 12)],
             Stroke (Color ''#000'') (Fin 8) [Fin 8, Fin 8]
               [MoveTo (Fin 10) (Fin 20), LineTo (Fin 60) (Fin 20)]])"
proof -
  let ?r = "\<lparr>topLeftX = Fin 10, topLeftY = Fin 0, width = Fin 50, height = Fin 20\<rparr>"
  note inst = drawChessMoire_ignores_topLeftY
    [where rect = ?r and ty' = "Fin 100" and c = "freshCtx 100 200" and h = 20
       and tx = "Fin 10" and w = "Fin 50" and canvasWidth = "Fin 100" and canvasHeight = "Fin 200"]
  have first: "drawChessMoire \<lparr>topLeftX = Fin 10, topLeftY = Fin 100, width = Fin 50, height = Fin 20\<rparr>
     (freshCtx 100 200) = drawChessMoire ?r (freshCtx 100 200)"
    using inst [THEN conjunct1] by simp
  obtain cs n where f: "nmul (getPPLineWidth (Fin 20)) (Fin 2) = Fin cs \<and> 0 < cs
      \<and> (\<forall>k. k < n \<longleftrightarrow> cs / 2 + real k * cs \<le> 20)
      \<and> (\<forall>ty c. \<exists>c'.
            drawChessMoire \<lparr>topLeftX = Fin 10, topLeftY = ty, width = Fin 50, height = Fin 20\<rparr> c
              = Some (Returns c')
            \<and> surface c' = surface c @
                map (\<lambda>k. Stroke (Color ''#000'') (Fin cs) [Fin cs, Fin cs]
                      [MoveTo (nadd (Fin 10) (Fin (if even k then 0 else cs)))
                         (Fin (cs / 2 + real k * cs)),
                       LineTo (nadd (Fin 10) (Fin 50)) (Fin (cs / 2 + real k * cs))]) [0..<n])"
    using inst [THEN conjunct2, THEN conjunct1] by (elim exE) (rule that)
  have cs8: "cs = 8"
    using f cellSize_20 by simp
  have "(2 < n) = (cs / 2 + real 2 * cs \<le> 20)" "(3 < n) = (cs / 2 + real 3 * cs \<le> 20)"
    using f by simp_all
  then have n3: "n = 3"
    by (simp add: cs8)
  have "\<exists>c'. drawChessMoire \<lparr>topLeftX = Fin 10, topLeftY = ty, width = Fin 50, height = Fin 20\<rparr>
           (freshCtx 100 200) = Some (Returns c')
         \<and> surface c' =
            [Stroke (Color ''#000'') (Fin 8) [Fin 8, Fin 8]
               [MoveTo (Fin 10) (Fin 4), LineTo (Fin 60) (Fin 4)],
             Stroke (Color ''#000'') (Fin 8) [Fin 8, Fin 8]
               [MoveTo (Fin 18) (Fin 12), LineTo (Fin 60) (Fin 12)],
             Stroke (Color ''#000'') (Fin 8) [Fin 8, Fin 8]
               [MoveTo (Fin 10) (Fin 20), LineTo (Fin 60) (Fin 20)]]" for ty
  proof -
    from f obtain c' where c': "drawChessMoire
         \<lparr>topLeftX = Fin 10, topLeftY = ty, width = Fin 50, height = Fin 20\<rparr>
         (freshCtx 100 200) = Some (Returns c')
            \<and> surface c' = surface (freshCtx 100 200) @
                map (\<lambda>k. Stroke (Color ''#000'') (Fin cs) [Fin cs, Fin cs]
                      [MoveTo (nadd (Fin 10) (Fin (if even k then 0 else cs)))
                         (Fin (cs / 2 + real k * cs)),
                       LineTo (nadd (Fin 10) (Fin 50)) (Fin (cs / 2 + real k * cs))]) [0..<n]"
      by (elim conjE allE [where x = ty] allE [where x = "freshCtx 100 200"] exE)
         (rule that, simp)
    then show ?thesis
      by (intro exI [of _ c']) (simp add: cs8 n3 upt_3 freshCtx_def)
  qed
  then have "\<forall>ty. \<exists>c'. drawChessMoire \<lparr>topLeftX = Fin 10, topLeftY = ty, width = Fin 50, height = Fin 20\<rparr>
           (freshCtx 100 200) = Some (Returns c')
         \<and> surface c' =
            [Stroke (Color ''#000'') (Fin 8) [Fin 8, Fin 8]
               [MoveTo (Fin 10) (Fin 4), LineTo (Fin 60) (Fin 4)],
             Stroke (Color ''#000'') (Fin 8) [Fin 8, Fin 8]
               [MoveTo (Fin 18) (Fin 12), LineTo (Fin 60) (Fin 12)],
             Stroke (Color ''#000'') (Fin 8) [Fin 8, Fin 8]
               [MoveTo (Fin 10) (Fin 20), LineTo (Fin 60) (Fin 20)]]"
    by (rule allI)
  with first show ?thesis
    by (rule conjI)
qed

section \<open>The table composer\<close>

text \<open>
  Claim C7. \<^verbatim>\<open>drawTable\<close> is deterministic and idempotent. On every context it returns;
  calling it a second time on the context it has left returns that same context (the same
  surface and the same drawing state); and from every other context of the same canvas
  size, whatever its styles, its path and its surface, it returns that same context
  again. Nothing of the previous context survives a call but the size of the canvas.
\<close>

theorem drawTable_idempotent:
  "\<exists>c'. drawTable c = Some (Returns c')
      \<and> andThen (drawTable c) drawTable = Some (Returns c')
      \<and> (\<forall>c2. canvas_width c2 = canvas_width c \<and> canvas_height c2 = canvas_height c
             \<longrightarrow> drawTable c2 = Some (Returns c'))"
proof -
  obtain cs n gs where run:
    "\<And>c2. canvas_width c2 = canvas_width c \<and> canvas_height c2 = canvas_height c
        \<Longrightarrow> drawTable c2
              = Some (Returns (rendered (canvas_width c) (canvas_height c) cs n gs c2))"
    using drawTable_returns [of "canvas_width c" "canvas_height c"] by blast
  let ?c' = "rendered (canvas_width c) (canvas_height c) cs n gs c"
  have same: "drawTable c2 = Some (Returns ?c')"
    if "canvas_width c2 = canvas_width c \<and> canvas_height c2 = canvas_height c" for c2
    using run [OF that] rendered_fresh [of c2 "canvas_width c" "canvas_height c" cs n gs]
      rendered_fresh [of c "canvas_width c" "canvas_height c" cs n gs] that
    by simp
  have once: "drawTable c = Some (Returns ?c')"
    by (rule same) simp
  have twice: "andThen (drawTable c) drawTable = Some (Returns ?c')"
    unfolding once andThen_Returns by (rule same) (simp add: rendered_size)
  show ?thesis
    using once twice same by (intro exI [of _ ?c']) simp
qed

theorem drawTable_idempotent_witness:
  "\<exists>c'. drawTable (freshCtx 1200 900) = Some (Returns c')
      \<and> andThen (drawTable (freshCtx 1200 900)) drawTable = Some (Returns c')
      \<and> drawTable \<lparr>canvas_width = 1200, canvas_height = 900,
                    fillStyle = Color ''red'', strokeStyle = Color ''blue'',
                    lineWidth = Fin 7, lineDash = [Fin 2, Fin 5],
                    path = [MoveTo (Fin 1) (Fin 1)],
                    surface = [FillRect (Color ''red'') (Fin 0) (Fin 0) (Fin 9) (Fin 9)]\<rparr>
          = Some (Returns c')"
proof -
  let ?d = "\<lparr>canvas_width = 1200, canvas_height = 900,
                    fillStyle = Color ''red'', strokeStyle = Color ''blue'',
                    lineWidth = Fin 7, lineDash = [Fin 2, Fin 5],
                    path = [MoveTo (Fin 1) (Fin 1)],
                    surface = [FillRect (Color ''red'') (Fin 0) (Fin 0) (Fin 9) (Fin 9)]\<rparr>"
  obtain c' where c': "drawTable (freshCtx 1200 900) = Some (Returns c')
      \<and> andThen (drawTable (freshCtx 1200 900)) drawTable = Some (Returns c')
      \<and> (\<forall>c2. canvas_width c2 = canvas_width (freshCtx 1200 900)
               \<and> canvas_height c2 = canvas_height (freshCtx 1200 900)
             \<longrightarrow> drawTable c2 = Some (Returns c'))"
    using drawTable_idempotent [of "freshCtx 1200 900"] by (elim exE) (rule that)
  have "canvas_width ?d = canvas_width (freshCtx 1200 900)
          \<and> canvas_height ?d = canvas_height (freshCtx 1200 900)"
    by (simp add: freshCtx_def)
  with c' have third: "drawTable ?d = Some (Returns c')"
    by (elim conjE allE [where x = ?d] impE) simp_all
  from c' have first: "drawTable (freshCtx 1200 900) = Some (Returns c')"
    by (elim conjE)
  from c' have second: "andThen (drawTable (freshCtx 1200 900)) drawTable = Some (Returns c')"
    by (elim conjE)
  from first second third show ?thesis
    by (intro exI [of _ c'] conjI)
qed

text \<open>
  Claim C8. When the frame is wider than the surface (\<open>W < \<lfloor>H * 4 / 3\<rfloor>\<close>) the frame rect
  has the negative \<open>topLeftX = \<lfloor>(W - width) / 2\<rfloor>\<close>; nothing guards against it. On every
  canvas, these included, \<^verbatim>\<open>drawTable\<close> returns (it neither throws nor runs forever),
  the white frame is filled at the coordinates of the frame rect, and every fill on the
  surface is the black background over the canvas or a fill of exactly the frame rect. For
  \<open>W = 1000\<close>, \<open>H = 900\<close> the frame rect is \<open>(-100, 0, 1200, 900)\<close>.
\<close>

theorem drawTable_overflowing_frame:
  "(real W < of_int \<lfloor>real H * 4 / 3\<rfloor> \<longrightarrow>
      (\<exists>b. topLeftX (frameLayout (Fin (real W)) (Fin (real H))) = Fin b \<and> b < 0
          \<and> b = of_int \<lfloor>(real W - of_int \<lfloor>real H * 4 / 3\<rfloor>) / 2\<rfloor>))
   \<and> (canvas_width c = W \<and> canvas_height c = H \<longrightarrow>
        (\<exists>c'. drawTable c = Some (Returns c')
           \<and> FillRect (Color ''#fff'')
                (topLeftX (frameLayout (Fin (real W)) (Fin (real H))))
                (topLeftY (frameLayout (Fin (real W)) (Fin (real H))))
                (width (frameLayout (Fin (real W)) (Fin (real H))))
                (height (frameLayout (Fin (real W)) (Fin (real H))))
              \<in> set (surface c')
           \<and> (\<forall>s x y w h. FillRect s x y w h \<in> set (surface c') \<longrightarrow>
                 (s = Color ''#000'' \<and> x = Fin 0 \<and> y = Fin 0
                    \<and> w = Fin (real W) \<and> h = Fin (real H))
               \<or> (x = topLeftX (frameLayout (Fin (real W)) (Fin (real H)))
                  \<and> y = topLeftY (frameLayout (Fin (real W)) (Fin (real H)))
                  \<and> w = width (frameLayout (Fin (real W)) (Fin (real H)))
                  \<and> h = height (frameLayout (Fin (real W)) (Fin (real H)))))))
   \<and> frameLayout (Fin 1000) (Fin 900)
       = \<lparr>topLeftX = Fin (- 100), topLeftY = Fin 0, width = Fin 1200, height = Fin 900\<rparr>"
proof (intro conjI impI)
  assume "real W < of_int \<lfloor>real H * 4 / 3\<rfloor>"
  then have "(real W - of_int \<lfloor>real H * 4 / 3\<rfloor>) / 2 < 0"
    by simp
  then have "\<lfloor>(real W - of_int \<lfloor>real H * 4 / 3\<rfloor>) / 2\<rfloor> < 0"
    by (simp add: floor_less_iff)
  then show "\<exists>b. topLeftX (frameLayout (Fin (real W)) (Fin (real H))) = Fin b \<and> b < 0
          \<and> b = of_int \<lfloor>(real W - of_int \<lfloor>real H * 4 / 3\<rfloor>) / 2\<rfloor>"
    by (simp add: frameLayout_Fin)
next
  assume size: "canvas_width c = W \<and> canvas_height c = H"
  obtain cs n gs where run: "drawTable c = Some (Returns (rendered W H cs n gs c))"
    using drawTable_returns [of W H] size by blast
  show "\<exists>c'. drawTable c = Some (Returns c')
           \<and> FillRect (Color ''#fff'')
                (topLeftX (frameLayout (Fin (real W)) (Fin (real H))))
                (topLeftY (frameLayout (Fin (real W)) (Fin (real H))))
                (width (frameLayout (Fin (real W)) (Fin (real H))))
                (height (frameLayout (Fin (real W)) (Fin (real H))))
              \<in> set (surface c')
           \<and> (\<forall>s x y w h. FillRect s x y w h \<in> set (surface c') \<longrightarrow>
                 (s = Color ''#000'' \<and> x = Fin 0 \<and> y = Fin 0
                    \<and> w = Fin (real W) \<and> h = Fin (real H))
               \<or> (x = topLeftX (frameLayout (Fin (real W)) (Fin (real H)))
                  \<and> y = topLeftY (frameLayout (Fin (real W)) (Fin (real H)))
                  \<and> w = width (frameLayout (Fin (real W)) (Fin (real H)))
                  \<and> h = height (frameLayout (Fin (real W)) (Fin (real H)))))"
    using run rendered_fills [of c W H _ _ _ _ _ cs n gs]
      rendered_frame_fill [of c W H cs n gs] size
    by (intro exI [of _ "rendered W H cs n gs c"] conjI allI impI) simp_all
next
  show "frameLayout (Fin 1000) (Fin 900)
       = \<lparr>topLeftX = Fin (- 100), topLeftY = Fin 0, width = Fin 1200, height = Fin 900\<rparr>"
    by (simp add: frameLayout_Fin)
qed

theorem drawTable_overflowing_frame_witness:
  "real (1000::nat) < of_int \<lfloor>real (900::nat) * 4 / 3\<rfloor>
   \<and> (\<exists>b. topLeftX (frameLayout (Fin (real (1000::nat))) (Fin (real (900::nat)))) = Fin b
          \<and> b < 0)
   \<and> frameLayout (Fin (real (1000::nat))) (Fin (real (900::nat)))
       = \<lparr>topLeftX = Fin (- 100), topLeftY = Fin 0, width = Fin 1200, height = Fin 900\<rparr>
   \<and> canvas_width (freshCtx 1000 900) = 1000 \<and> canvas_height (freshCtx 1000 900) = 900
   \<and> (\<exists>c'. drawTable (freshCtx 1000 900) = Some (Returns c')
         \<and> FillRect (Color ''#fff'') (Fin (- 100)) (Fin 0) (Fin 1200) (Fin 900)
             \<in> set (surface c')
         \<and> (\<forall>s x y w h. FillRect s x y w h \<in> set (surface c') \<longrightarrow>
                 (s = Color ''#000'' \<and> x = Fin 0 \<and> y = Fin 0 \<and> w = Fin 1000 \<and> h = Fin 900)
               \<or> (x = Fin (- 100) \<and> y = Fin 0 \<and> w = Fin 1200 \<and> h = Fin 900)))"
proof -
  have fr: "frameLayout (Fin (real (1000::nat))) (Fin (real (900::nat)))
       = \<lparr>topLeftX = Fin (- 100), topLeftY = Fin 0, width = Fin 1200, height = Fin 900\<rparr>"
    by (simp add: frameLayout_Fin)
  have size: "canvas_width (freshCtx 1000 900) = 1000 \<and> canvas_height (freshCtx 1000 900) = 900"
    by (simp add: freshCtx_def)
  have lt: "real (1000::nat) < of_int \<lfloor>real (900::nat) * 4 / 3\<rfloor>"
    by simp
  note inst = drawTable_overflowing_frame [where W = 1000 and H = 900 and c = "freshCtx 1000 900"]
  have fr': "frameLayout (Fin 1000) (Fin 900)
       = \<lparr>topLeftX = Fin (- 100), topLeftY = Fin 0, width = Fin 1200, height = Fin 900\<rparr>"
    by (rule inst [THEN conjunct2, THEN conjunct2])
  have neg: "\<exists>b. topLeftX (frameLayout (Fin (real (1000::nat))) (Fin (real (900::nat)))) = Fin b
          \<and> b < 0"
    using inst [THEN conjunct1, rule_format, OF lt] by (elim exE conjE, intro exI conjI)
  from inst [THEN conjunct2, THEN conjunct1, rule_format, OF size]
  have run: "\<exists>c'. drawTable (freshCtx 1000 900) = Some (Returns c')
         \<and> FillRect (Color ''#fff'') (Fin (- 100)) (Fin 0) (Fin 1200) (Fin 900)
             \<in> set (surface c')
         \<and> (\<forall>s x y w h. FillRect s x y w h \<in> set (surface c') \<longrightarrow>
                 (s = Color ''#000'' \<and> x = Fin 0 \<and> y = Fin 0 \<and> w = Fin 1000 \<and> h = Fin 900)
               \<or> (x = Fin (- 100) \<and> y = Fin 0 \<and> w = Fin 1200 \<and> h = Fin 900))"
    by (simp add: fr')
  from lt neg fr size run show ?thesis
    by (intro conjI) (elim conjE, assumption)+
qed

end
